theory Spec2Isabelle
  imports Complex_Main
begin

section \<open>Python strings\<close>

text \<open>
  A Python \<open>str\<close> is a sequence of Unicode code points; the frame of the device panel is
  made of box-drawing characters outside ASCII, so a string is a list of code points.
  \<open>lit\<close> embeds an ASCII literal.
\<close>

type_synonym pystr = "nat list"

definition lit :: "string \<Rightarrow> pystr" where
  "lit s = map of_char s"

text \<open>\<open>s.startswith(p)\<close>.\<close>

definition startswith :: "pystr \<Rightarrow> pystr \<Rightarrow> bool" where
  "startswith s p = (take (length p) s = p)"

text \<open>
  \<open>s.replace(old, new, count)\<close>: the occurrences of \<open>old\<close> are replaced from the left,
  without overlap, at most \<open>count\<close> of them (\<open>None\<close>: all of them). An empty \<open>old\<close>
  matches before every character and at the end.
\<close>

fun dec_count :: "nat option \<Rightarrow> nat option" where
  "dec_count None = None"
| "dec_count (Some n) = Some (n - 1)"

fun replace_empty :: "pystr \<Rightarrow> nat option \<Rightarrow> pystr \<Rightarrow> pystr" where
  "replace_empty new cnt [] = (if cnt = Some 0 then [] else new)"
| "replace_empty new cnt (c # cs) =
     (if cnt = Some 0 then c # cs else new @ c # replace_empty new (dec_count cnt) cs)"

function str_replace :: "pystr \<Rightarrow> pystr \<Rightarrow> nat option \<Rightarrow> pystr \<Rightarrow> pystr" where
  "str_replace old new cnt s =
     (if old = [] then replace_empty new cnt s
      else if cnt = Some 0 \<or> s = [] then s
      else if take (length old) s = old
           then new @ str_replace old new (dec_count cnt) (drop (length old) s)
      else hd s # str_replace old new cnt (tl s))"
  by pat_completeness auto
termination
  by (relation "measure (\<lambda>(old, new, cnt, s). length s)") (auto simp: neq_Nil_conv)

declare str_replace.simps [simp del]

text \<open>\<open>s.ljust(n)\<close> and \<open>s.rjust(n)\<close>, which are also the format specifications
  \<open>{x:<n}\<close> and \<open>{x:>n}\<close> applied to a string: padding with spaces, never cutting.\<close>

definition ljust :: "nat \<Rightarrow> pystr \<Rightarrow> pystr" where
  "ljust n s = s @ replicate (n - length s) 32"

definition rjust :: "nat \<Rightarrow> pystr \<Rightarrow> pystr" where
  "rjust n s = replicate (n - length s) 32 @ s"

datatype align = AlignLeft | AlignRight

text \<open>
  Modelled from the spec: \<open>cut_string\<close> of \<open>nvitop.gui.library.utils\<close> is not among the
  sources. The spec has it truncate a name; the call sites give it a maximal length, a pad
  string and an alignment. A string no longer than \<open>maxlen\<close> is returned as it is; a longer
  one is cut to \<open>maxlen\<close> characters including the pad string, which marks the side where
  characters were dropped: at the end when aligned left, at the front when aligned right.
\<close>

definition cut_string :: "pystr \<Rightarrow> nat \<Rightarrow> pystr \<Rightarrow> align \<Rightarrow> pystr" where
  "cut_string s maxlen padstr al =
     (if length s \<le> maxlen then s
      else case al of
        AlignLeft \<Rightarrow> take (maxlen - length padstr) s @ padstr
      | AlignRight \<Rightarrow> padstr @ drop (length s - (maxlen - length padstr)) s)"



text \<open>\<open>sub in s\<close> for strings, and \<open>str(n)\<close> for a natural number.\<close>

fun contains :: "pystr \<Rightarrow> pystr \<Rightarrow> bool" where
  "contains sub [] = (sub = [])"
| "contains sub (c # cs) = (take (length sub) (c # cs) = sub \<or> contains sub cs)"

fun str_nat :: "nat \<Rightarrow> pystr" where
  "str_nat n = (if n < 10 then [48 + n] else str_nat (n div 10) @ [48 + n mod 10])"

declare str_nat.simps [simp del]

section \<open>Snapshots\<close>

text \<open>
  The fields of a device snapshot that the panel reads. \<open>real_device\<close> is the back-reference
  \<open>real\<close> to the live device (a handle). The printed fields are kept in their printed
  form; \<open>fan_speed\<close>, \<open>memory_percent\<close> and \<open>gpu_utilization\<close> are the provider's
  integer readings.
\<close>

record snapshot =
  real_device :: nat
  index :: nat
  name :: pystr
  fan_speed :: int
  fan_speed_string :: pystr
  temperature_string :: pystr
  performance_state :: pystr
  power_status :: pystr
  memory_usage :: pystr
  gpu_utilization_string :: pystr
  compute_mode :: pystr
  persistence_mode :: pystr
  current_driver_model :: pystr
  bus_id :: pystr
  display_active :: pystr
  total_volatile_uncorrected_ecc_errors :: pystr
  mig_mode :: pystr
  memory_percent :: int
  gpu_utilization :: int
  display_color :: pystr
  memory_display_color :: pystr
  gpu_display_color :: pystr

text \<open>The body of the loop of \<open>take_snapshots\<close> (device.py, lines 103 to 112), for one
  snapshot.\<close>

definition derive_snapshot :: "snapshot \<Rightarrow> snapshot" where
  "derive_snapshot d0 =
     (let d1 = (if startswith (name d0) (lit ''NVIDIA '')
                then d0\<lparr>name := str_replace (lit ''NVIDIA '') [] (Some 1) (name d0)\<rparr>
                else d0);
          d2 = d1\<lparr>name := cut_string (name d1) 18 (lit ''..'') AlignRight\<rparr>;
          d3 = d2\<lparr>current_driver_model :=
                     str_replace (lit ''WDM'') (lit ''TCC'') None (current_driver_model d2)\<rparr>;
          d4 = d3\<lparr>display_active :=
                     str_replace (lit ''Disabled'') (lit ''Off'') None
                       (str_replace (lit ''Enabled'') (lit ''On'') None (display_active d3))\<rparr>;
          d5 = d4\<lparr>persistence_mode :=
                     str_replace (lit ''Disabled'') (lit ''Off'') None
                       (str_replace (lit ''Enabled'') (lit ''On'') None (persistence_mode d4))\<rparr>;
          d6 = d5\<lparr>mig_mode := str_replace (lit ''N/A'') (lit ''N/A '') None (mig_mode d5)\<rparr>;
          d7 = d6\<lparr>compute_mode :=
                     str_replace (lit ''Exclusive'') (lit ''E.'') None (compute_mode d6)\<rparr>
      in if fan_speed d7 \<ge> 100 then d7\<lparr>fan_speed_string := lit ''MAX''\<rparr> else d7)"

section \<open>Row formats\<close>

text \<open>
  A format string of the panel is a sequence of literal text and of replacement fields
  \<open>{field:<n}\<close> or \<open>{field:>n}\<close>; \<open>format_row\<close> is \<open>fmt.format(**device.__dict__)\<close>.
\<close>

datatype field =
    F_index | F_name | F_fan_speed_string | F_temperature_string | F_performance_state
  | F_power_status | F_memory_usage | F_gpu_utilization_string | F_compute_mode
  | F_persistence_mode | F_current_driver_model | F_bus_id | F_display_active
  | F_total_volatile_uncorrected_ecc_errors | F_mig_mode

datatype seg = Text pystr | Field field align nat

type_synonym fmt = "seg list"

fun field_str :: "snapshot \<Rightarrow> field \<Rightarrow> pystr" where
  "field_str d F_index = str_nat (index d)"
| "field_str d F_name = name d"
| "field_str d F_fan_speed_string = fan_speed_string d"
| "field_str d F_temperature_string = temperature_string d"
| "field_str d F_performance_state = performance_state d"
| "field_str d F_power_status = power_status d"
| "field_str d F_memory_usage = memory_usage d"
| "field_str d F_gpu_utilization_string = gpu_utilization_string d"
| "field_str d F_compute_mode = compute_mode d"
| "field_str d F_persistence_mode = persistence_mode d"
| "field_str d F_current_driver_model = current_driver_model d"
| "field_str d F_bus_id = bus_id d"
| "field_str d F_display_active = display_active d"
| "field_str d F_total_volatile_uncorrected_ecc_errors = total_volatile_uncorrected_ecc_errors d"
| "field_str d F_mig_mode = mig_mode d"

fun seg_str :: "snapshot \<Rightarrow> seg \<Rightarrow> pystr" where
  "seg_str d (Text t) = t"
| "seg_str d (Field f AlignLeft n) = ljust n (field_str d f)"
| "seg_str d (Field f AlignRight n) = rjust n (field_str d f)"

definition format_row :: "fmt \<Rightarrow> snapshot \<Rightarrow> pystr" where
  "format_row f d = concat (map (seg_str d) f)"

text \<open>The box-drawing characters of the frame, by code point.\<close>

definition BV :: nat where "BV = 0x2502"   \<comment> \<open>light vertical\<close>
definition BH :: nat where "BH = 0x2500"   \<comment> \<open>light horizontal\<close>
definition DH :: nat where "DH = 0x2550"   \<comment> \<open>double horizontal\<close>

definition formats_compact0 :: "fmt list" where
  "formats_compact0 =
     [[Text (BV # lit '' ''), Field F_index AlignRight 3, Text (lit '' ''),
       Field F_fan_speed_string AlignRight 3, Text (lit '' ''),
       Field F_temperature_string AlignRight 4, Text (lit '' ''),
       Field F_performance_state AlignRight 3, Text (lit '' ''),
       Field F_power_status AlignRight 12, Text (lit '' '' @ BV # lit '' ''),
       Field F_memory_usage AlignRight 20, Text (lit '' '' @ BV # lit '' ''),
       Field F_gpu_utilization_string AlignRight 7, Text (lit ''  ''),
       Field F_compute_mode AlignRight 11, Text (lit '' '' @ [BV])]]"

definition formats_full0 :: "fmt list" where
  "formats_full0 =
     [[Text (BV # lit '' ''), Field F_index AlignRight 3, Text (lit ''  ''),
       Field F_name AlignLeft 18, Text (lit ''  ''),
       Field F_persistence_mode AlignLeft 4, Text (lit '' '' @ BV # lit '' ''),
       Field F_bus_id AlignLeft 16, Text (lit '' ''),
       Field F_display_active AlignRight 3, Text (lit '' '' @ BV # lit '' ''),
       Field F_total_volatile_uncorrected_ecc_errors AlignRight 20, Text (lit '' '' @ [BV])],
      [Text (BV # lit '' ''), Field F_fan_speed_string AlignRight 3, Text (lit ''  ''),
       Field F_temperature_string AlignRight 4, Text (lit ''  ''),
       Field F_performance_state AlignRight 4, Text (lit ''  ''),
       Field F_power_status AlignRight 12, Text (lit '' '' @ BV # lit '' ''),
       Field F_memory_usage AlignRight 20, Text (lit '' '' @ BV # lit '' ''),
       Field F_gpu_utilization_string AlignRight 7, Text (lit ''  ''),
       Field F_compute_mode AlignRight 11, Text (lit '' '' @ [BV])]]"

text \<open>The two textual replacements that the constructor makes in \<open>formats_full[0]\<close>
  (lines 58 and 62 to 65), on the segments.\<close>

fun use_driver_model :: "seg \<Rightarrow> seg" where
  "use_driver_model (Field F_persistence_mode a n) = Field F_current_driver_model a n"
| "use_driver_model s = s"

fun use_mig_mode :: "seg \<Rightarrow> seg list" where
  "use_mig_mode (Field F_total_volatile_uncorrected_ecc_errors AlignRight n) =
     (if n = 20
      then [Field F_mig_mode AlignRight 8, Text (lit ''  ''),
            Field F_total_volatile_uncorrected_ecc_errors AlignRight 10]
      else [Field F_total_volatile_uncorrected_ecc_errors AlignRight n])"
| "use_mig_mode s = [s]"


section \<open>Python lists\<close>

datatype pyerror = IndexError | RuntimeError

text \<open>\<open>xs.pop()\<close>, \<open>xs[i]\<close> and \<open>xs[i] = v\<close>; a negative index counts from the end, an
  index out of range raises \<open>IndexError\<close>.\<close>

fun pop :: "'a list \<Rightarrow> pyerror + 'a list" where
  "pop [] = Inl IndexError"
| "pop xs = Inr (butlast xs)"

definition get_item :: "'a list \<Rightarrow> int \<Rightarrow> pyerror + 'a" where
  "get_item xs i =
     (let n = int (length xs); j = (if i < 0 then n + i else i)
      in if 0 \<le> j \<and> j < n then Inr (xs ! nat j) else Inl IndexError)"

definition set_item :: "'a list \<Rightarrow> int \<Rightarrow> 'a \<Rightarrow> pyerror + 'a list" where
  "set_item xs i v =
     (let n = int (length xs); j = (if i < 0 then n + i else i)
      in if 0 \<le> j \<and> j < n then Inr (xs[nat j := v]) else Inl IndexError)"

section \<open>The device panel\<close>

text \<open>
  The part of a panel that its base class \<open>Displayable\<close> owns and that \<open>DevicePanel\<close>
  reads or writes: the position, the stored width (\<open>_width\<close>), the height and the two flags.
\<close>

record displayable =
  x_pos :: int
  y_pos :: int
  m_width :: int
  height :: int
  visible :: bool
  need_redraw :: bool

text \<open>
  What the panel does to the world outside, in the order it does it: a query of one device
  of the provider (\<open>device.as_snapshot()\<close>), taking and releasing \<open>snapshot_lock\<close>, the two
  assignments made under it, the start of the snapshot thread.
\<close>

datatype event =
    Query nat | Acquire | Release | StoreSnapshots | StoreBuffer | ThreadStart

text \<open>Where the thread running \<open>_snapshot_target\<close> stands.\<close>

datatype pc = NotStarted | Waiting | CycleStart | InQuery | Sleeping | Exited

text \<open>
  A field \<open>m_a\<close> is the private attribute \<open>_a\<close> (\<open>m_compact\<close> is \<open>_compact\<close>). \<open>ttl_entry\<close> is the entry of this panel in the cache of the decorator of
  \<open>take_snapshots\<close>, with its expiry time; \<open>daemon_pc\<close> is the state of the thread
  \<open>_snapshot_daemon\<close>; \<open>trace\<close> is the log of the events above.
\<close>

record panel =
  base :: displayable
  devices :: "nat list"
  device_count :: nat
  m_compact :: bool
  full_height :: int
  compact_height :: int
  driver_version :: pystr
  cuda_version :: pystr
  m_snapshot_buffer :: "snapshot list"
  m_snapshots :: "snapshot list"
  m_daemon_running :: bool
  daemon_pc :: pc
  formats_compact :: "fmt list"
  formats_full :: "fmt list"
  support_mig :: bool
  ttl_entry :: "(rat \<times> snapshot list) option"
  trace :: "event list"

text \<open>The property \<open>width\<close> and its setter (lines 67 to 76).\<close>

definition width :: "panel \<Rightarrow> int" where
  "width p = m_width (base p)"

definition width_setter :: "int \<Rightarrow> panel \<Rightarrow> panel" where
  "width_setter v p =
     (let w = max 79 v;
          b = base p;
          b1 = (if m_width b \<noteq> w \<and> visible b then b\<lparr>need_redraw := True\<rparr> else b)
      in p\<lparr>base := b1\<lparr>m_width := w\<rparr>\<rparr>)"

text \<open>The property \<open>compact\<close> and its setter (lines 78 to 87).\<close>

definition compact :: "panel \<Rightarrow> bool" where
  "compact p = m_compact p"

definition compact_setter :: "bool \<Rightarrow> panel \<Rightarrow> panel" where
  "compact_setter v p =
     (if m_compact p \<noteq> v
      then let p1 = p\<lparr>base := (base p)\<lparr>need_redraw := True\<rparr>\<rparr>;
               p2 = p1\<lparr>m_compact := v\<rparr>
           in p2\<lparr>base := (base p2)\<lparr>height :=
                  (if compact p2 then compact_height p2 else full_height p2)\<rparr>\<rparr>
      else p)"

text \<open>The property \<open>snapshots\<close> and its setter (lines 89 to 96).\<close>

definition snapshots :: "panel \<Rightarrow> snapshot list" where
  "snapshots p = m_snapshots p"

definition snapshots_setter :: "snapshot list \<Rightarrow> panel \<Rightarrow> panel" where
  "snapshots_setter v p =
     (let p1 = p\<lparr>trace := trace p @ [Acquire]\<rparr>;
          p2 = p1\<lparr>m_snapshots := v, trace := trace p1 @ [StoreSnapshots]\<rparr>
      in p2\<lparr>trace := trace p2 @ [Release]\<rparr>)"

text \<open>
  The body of \<open>take_snapshots\<close> (lines 99 to 117). The provider is a parameter:
  \<open>as_snapshot now d\<close> is what \<open>device.as_snapshot()\<close> returns for device \<open>d\<close> at time
  \<open>now\<close>. Every device is queried, in order; then the list is stored in the buffer under
  the lock.
\<close>

definition take_snapshots_body ::
  "(rat \<Rightarrow> nat \<Rightarrow> snapshot) \<Rightarrow> rat \<Rightarrow> panel \<Rightarrow> snapshot list \<times> panel" where
  "take_snapshots_body as_snapshot now p =
     (let p1 = p\<lparr>trace := trace p @ map Query (devices p)\<rparr>;
          snaps = map derive_snapshot (map (as_snapshot now) (devices p1));
          p2 = p1\<lparr>trace := trace p1 @ [Acquire]\<rparr>;
          p3 = p2\<lparr>m_snapshot_buffer := snaps, trace := trace p2 @ [StoreBuffer]\<rparr>;
          p4 = p3\<lparr>trace := trace p3 @ [Release]\<rparr>
      in (snaps, p4))"

text \<open>
  Modelled from the spec: the decorator \<open>ttl_cache(ttl=1.0)\<close> is imported from the package
  \<open>cachetools\<close> and is not among the sources. The spec gives \<open>take_snapshots\<close> a dedup
  window of one time unit inside which a call returns the previous result without querying
  again. The window is the time to live of the cached result: it opens when a result is
  computed and stored, a call that finds a live result returns it and changes nothing (it
  does not prolong the window), and a call that finds none, or an expired one, runs the body
  and stores its result with the expiry time \<open>now + ttl\<close>. A result is live while the clock
  is before its expiry time. A call is taken to be instantaneous, at the time \<open>now\<close>.
  (Were the window counted from the last call, the snapshot thread, which calls every
  \<open>SNAPSHOT_INTERVAL\<close>, shorter than the window, would never query the devices again.)
\<close>

definition ttl :: rat where
  "ttl = 1"

definition cache_miss ::
  "(rat \<Rightarrow> nat \<Rightarrow> snapshot) \<Rightarrow> rat \<Rightarrow> panel \<Rightarrow> snapshot list \<times> panel" where
  "cache_miss as_snapshot now p =
     (let (r, p1) = take_snapshots_body as_snapshot now p
      in (r, p1\<lparr>ttl_entry := Some (now + ttl, r)\<rparr>))"

definition take_snapshots ::
  "(rat \<Rightarrow> nat \<Rightarrow> snapshot) \<Rightarrow> rat \<Rightarrow> panel \<Rightarrow> snapshot list \<times> panel" where
  "take_snapshots as_snapshot now p =
     (case ttl_entry p of
        Some (expires, v) \<Rightarrow>
          if now < expires then (v, p) else cache_miss as_snapshot now p
      | None \<Rightarrow> cache_miss as_snapshot now p)"

text \<open>
  The constructor (lines 21 to 65), in three stages. \<open>base0\<close> is the state in which
  \<open>Displayable.__init__\<close> leaves its fields, \<open>root_width\<close> is \<open>root.width\<close>, \<open>drv\<close> and
  \<open>cuda\<close> are the two version strings of the provider and \<open>windows\<close> is \<open>host.WINDOWS\<close>.
  The attributes assigned by a later stage have no value before; nothing reads them earlier.
\<close>

text \<open>Lines 24 to 33: the devices, the mode and the geometry.\<close>

definition init_geometry :: "displayable \<Rightarrow> int \<Rightarrow> nat list \<Rightarrow> bool \<Rightarrow> panel" where
  "init_geometry base0 root_width devs cmpct =
     (let p0 = \<lparr>base = base0, devices = devs, device_count = length devs, m_compact = cmpct,
                full_height = 0, compact_height = 0, driver_version = [], cuda_version = [],
                m_snapshot_buffer = [], m_snapshots = [], m_daemon_running = False,
                daemon_pc = NotStarted, formats_compact = [], formats_full = [],
                support_mig = False, ttl_entry = None, trace = []\<rparr>;
          p1 = width_setter (max 79 root_width) p0;
          p2 = p1\<lparr>full_height := 4 + 3 * (int (device_count p1) + 1)\<rparr>;
          p3 = p2\<lparr>compact_height := 4 + 2 * (int (device_count p2) + 1)\<rparr>;
          p4 = p3\<lparr>base := (base p3)\<lparr>height :=
                 (if cmpct then compact_height p3 else full_height p3)\<rparr>\<rparr>
      in if device_count p4 = 0
         then p4\<lparr>base := (base p4)\<lparr>height := 6\<rparr>, full_height := 6, compact_height := 6\<rparr>
         else p4)"

text \<open>Lines 35 to 44: the versions, the two snapshot lists, the first snapshots, taken in
  the constructor itself, and the thread, created but not started, with its flag.\<close>

definition init_snapshots ::
  "pystr \<Rightarrow> pystr \<Rightarrow> (rat \<Rightarrow> nat \<Rightarrow> snapshot) \<Rightarrow> rat \<Rightarrow> panel \<Rightarrow> panel" where
  "init_snapshots drv cuda as_snapshot now p =
     (let p1 = p\<lparr>driver_version := drv, cuda_version := cuda\<rparr>;
          p2 = p1\<lparr>m_snapshot_buffer := [], m_snapshots := []\<rparr>;
          (r, p3) = take_snapshots as_snapshot now p2;
          p4 = snapshots_setter r p3
      in p4\<lparr>daemon_pc := NotStarted, m_daemon_running := False\<rparr>)"

text \<open>Lines 46 to 65: the row formats and the MIG flag.\<close>

definition init_formats :: "bool \<Rightarrow> panel \<Rightarrow> panel" where
  "init_formats windows p =
     (let p1 = p\<lparr>formats_compact := formats_compact0, formats_full := formats_full0\<rparr>;
          p2 = (if windows
                then p1\<lparr>formats_full :=
                       (formats_full p1)[0 := map use_driver_model (formats_full p1 ! 0)]\<rparr>
                else p1);
          p3 = p2\<lparr>support_mig :=
                  (\<exists>d \<in> set (snapshots p2). \<not> contains (lit ''N/A'') (mig_mode d))\<rparr>
      in if support_mig p3
         then p3\<lparr>formats_full :=
                (formats_full p3)[0 := concat (map use_mig_mode (formats_full p3 ! 0))]\<rparr>
         else p3)"

definition init ::
  "displayable \<Rightarrow> int \<Rightarrow> nat list \<Rightarrow> bool \<Rightarrow> pystr \<Rightarrow> pystr \<Rightarrow> bool \<Rightarrow>
   (rat \<Rightarrow> nat \<Rightarrow> snapshot) \<Rightarrow> rat \<Rightarrow> panel" where
  "init base0 root_width devs cmpct drv cuda windows as_snapshot now =
     init_formats windows
       (init_snapshots drv cuda as_snapshot now
          (init_geometry base0 root_width devs cmpct))"

text \<open>
  \<open>header_lines\<close> (lines 125 to 154). The two replacements made in \<open>header[-2]\<close>
  (lines 143 to 146) are made in the first of the two lines just appended, which is the
  line at that index.
\<close>

definition header_lines :: "bool \<Rightarrow> panel \<Rightarrow> bool option \<Rightarrow> pystr list" where
  "header_lines windows p compact_arg =
     (let cmpct = (case compact_arg of None \<Rightarrow> compact p | Some c \<Rightarrow> c);
          header =
            [0x2552 # replicate 77 DH @ [0x2555],
             BV # lit '' NVIDIA-SMI '' @ ljust 12 (driver_version p)
               @ lit '' Driver Version: '' @ ljust 12 (driver_version p)
               @ lit '' CUDA Version: '' @ ljust 8 (cuda_version p) @ lit '' '' @ [BV]]
      in if device_count p > 0
         then
           (let h1 = header @ [0x251C # replicate 31 BH @ 0x252C # replicate 22 BH
                                 @ 0x252C # replicate 22 BH @ [0x2524]];
                h2 =
                  (if cmpct
                   then h1 @ [BV # lit '' GPU Fan Temp Perf Pwr:Usg/Cap '' @ BV
                                # lit ''         Memory-Usage '' @ BV
                                # lit '' GPU-Util  Compute M. '' @ [BV]]
                   else
                     (let l1 = BV # lit '' GPU  Name        Persistence-M'' @ BV
                                 # lit '' Bus-Id        Disp.A '' @ BV
                                 # lit '' Volatile Uncorr. ECC '' @ [BV];
                          l2 = BV # lit '' Fan  Temp  Perf  Pwr:Usage/Cap'' @ BV
                                 # lit ''         Memory-Usage '' @ BV
                                 # lit '' GPU-Util  Compute M. '' @ [BV];
                          l1a = (if windows
                                 then str_replace (lit ''Persistence-M'') (lit ''    TCC/WDDM '')
                                        None l1
                                 else l1);
                          l1b = (if support_mig p
                                 then str_replace (lit ''Volatile Uncorr. ECC'')
                                        (lit ''MIG M.   Uncorr. ECC'') None l1a
                                 else l1a)
                      in h1 @ [l1b, l2]))
            in h2 @ [0x255E # replicate 31 DH @ 0x256A # replicate 22 DH
                       @ 0x256A # replicate 22 DH @ [0x2561]])
         else header @
           [0x255E # replicate 77 DH @ [0x2561],
            BV # lit ''  No visible devices found''
              @ replicate 51 32 @ [BV],
            0x2558 # replicate 77 DH @ [0x255B]])"

text \<open>
  \<open>frame_lines\<close> (lines 156 to 180). \<open>data_line\<close> and \<open>separator_line\<close> are the two
  lines of lines 163 to 167, which are longer on a wide panel; \<open>widen_frame\<close> is lines 177
  and 178, which lengthen the line under the header and the last line; \<open>int(compact)\<close> is
  1 or 0.
\<close>

definition data_line :: "panel \<Rightarrow> pystr" where
  "data_line p =
     (let remaining_width = width p - 79;
          line = BV # replicate 31 32 @ BV # replicate 22 32 @ BV # replicate 22 32 @ [BV]
      in if width p \<ge> 100
         then line @ replicate (nat (remaining_width - 1)) 32 @ [BV]
         else line)"

definition separator_line :: "panel \<Rightarrow> pystr" where
  "separator_line p =
     (let remaining_width = width p - 79;
          line = 0x251C # replicate 31 BH @ 0x253C # replicate 22 BH
                   @ 0x253C # replicate 22 BH @ [0x2524]
      in if width p \<ge> 100
         then butlast line @ [0x253C] @ replicate (nat (remaining_width - 1)) BH @ [0x2524]
         else line)"

definition widen_frame :: "panel \<Rightarrow> bool \<Rightarrow> pystr list \<Rightarrow> pyerror + pystr list" where
  "widen_frame p cmpct frame =
     (let remaining_width = width p - 79;
          i = 5 - (if cmpct then 1 else 0)
      in case get_item frame i of
           Inl e \<Rightarrow> Inl e
         | Inr l \<Rightarrow>
             (case set_item frame i
                     (butlast l @ [0x256A] @ replicate (nat (remaining_width - 1)) DH
                        @ [0x2555]) of
                Inl e \<Rightarrow> Inl e
              | Inr frame1 \<Rightarrow>
                  (case get_item frame1 (- 1) of
                     Inl e \<Rightarrow> Inl e
                   | Inr l' \<Rightarrow>
                       set_item frame1 (- 1)
                         (butlast l' @ [0x2567] @ replicate (nat (remaining_width - 1)) DH
                            @ [0x255B]))))"

definition frame_lines :: "bool \<Rightarrow> panel \<Rightarrow> bool option \<Rightarrow> pyerror + pystr list" where
  "frame_lines windows p compact_arg =
     (let cmpct = (case compact_arg of None \<Rightarrow> compact p | Some c \<Rightarrow> c);
          frame = header_lines windows p (Some cmpct)
      in if device_count p > 0
         then
           (case pop (frame @ concat (replicate (device_count p)
                        (if cmpct then [data_line p, separator_line p]
                         else [data_line p, data_line p, separator_line p]))) of
              Inl e \<Rightarrow> Inl e
            | Inr frame1 \<Rightarrow>
                (let frame2 = frame1 @ [0x2558 # replicate 31 DH @ 0x2567 # replicate 22 DH
                                          @ 0x2567 # replicate 22 DH @ [0x255B]]
                 in if width p \<ge> 100 then widen_frame p cmpct frame2 else Inr frame2))
         else Inr frame)"

text \<open>
  \<open>poke\<close> (lines 182 to 189), in the three parts between which the snapshot thread can
  run. \<open>poke_start\<close> is lines 183 to 185: starting a thread that was started before raises
  \<open>RuntimeError\<close>, and then the flag has been set already and stays set. \<open>poke_read\<close> is
  the right-hand side of line 187, the buffer as it is read, outside the lock.
  \<open>poke_store\<close> is its assignment through the setter of \<open>snapshots\<close>, under the lock, and
  line 189; \<open>super_poke\<close> is \<open>Displayable.poke\<close>, which is not among the sources: a
  parameter, acting on the fields of the base class.
\<close>

definition thread_start :: "panel \<Rightarrow> pyerror + panel" where
  "thread_start p =
     (if daemon_pc p = NotStarted
      then Inr (p\<lparr>daemon_pc := Waiting, trace := trace p @ [ThreadStart]\<rparr>)
      else Inl RuntimeError)"

definition poke_start :: "panel \<Rightarrow> pyerror \<times> panel + panel" where
  "poke_start p =
     (if \<not> m_daemon_running p
      then (let p1 = p\<lparr>m_daemon_running := True\<rparr>
            in case thread_start p1 of
                 Inl e \<Rightarrow> Inl (e, p1)
               | Inr p2 \<Rightarrow> Inr p2)
      else Inr p)"

definition poke_read :: "panel \<Rightarrow> snapshot list" where
  "poke_read p = m_snapshot_buffer p"

definition poke_store ::
  "(displayable \<Rightarrow> displayable) \<Rightarrow> snapshot list \<Rightarrow> panel \<Rightarrow> panel" where
  "poke_store super_poke v p =
     (let p1 = snapshots_setter v p
      in p1\<lparr>base := super_poke (base p1)\<rparr>)"


text \<open>\<open>destroy\<close> (lines 255 to 257), with \<open>Displayable.destroy\<close> as a parameter.\<close>

definition destroy :: "(displayable \<Rightarrow> displayable) \<Rightarrow> panel \<Rightarrow> panel" where
  "destroy super_destroy p =
     (let p1 = p\<lparr>base := super_destroy (base p)\<rparr>
      in p1\<lparr>m_daemon_running := False\<rparr>)"

text \<open>
  The thread running \<open>_snapshot_target\<close> (lines 119 to 123), one step at a time; the state
  is the clock and the panel. \<open>Waiting\<close> is \<open>_daemon_running.wait()\<close>, which returns once
  the flag is set; \<open>CycleStart\<close> is the test of the \<open>while\<close>; \<open>InQuery\<close> is the call of
  \<open>take_snapshots\<close>; \<open>Sleeping\<close> is \<open>time.sleep(SNAPSHOT_INTERVAL)\<close>, the only step during
  which the clock moves.
\<close>

definition SNAPSHOT_INTERVAL :: rat where
  "SNAPSHOT_INTERVAL = 7 / 10"

fun snapshot_target_step ::
  "(rat \<Rightarrow> nat \<Rightarrow> snapshot) \<Rightarrow> rat \<times> panel \<Rightarrow> rat \<times> panel" where
  "snapshot_target_step as_snapshot (now, p) =
     (case daemon_pc p of
        NotStarted \<Rightarrow> (now, p)
      | Waiting \<Rightarrow> (if m_daemon_running p then (now, p\<lparr>daemon_pc := CycleStart\<rparr>) else (now, p))
      | CycleStart \<Rightarrow>
          (if m_daemon_running p then (now, p\<lparr>daemon_pc := InQuery\<rparr>)
           else (now, p\<lparr>daemon_pc := Exited\<rparr>))
      | InQuery \<Rightarrow> (now, (snd (take_snapshots as_snapshot now p))\<lparr>daemon_pc := Sleeping\<rparr>)
      | Sleeping \<Rightarrow> (now + SNAPSHOT_INTERVAL, p\<lparr>daemon_pc := CycleStart\<rparr>)
      | Exited \<Rightarrow> (now, p))"

declare snapshot_target_step.simps [simp del]


text \<open>The number of provider queries in a trace.\<close>

fun is_query :: "event \<Rightarrow> bool" where
  "is_query (Query d) = True"
| "is_query e = False"

definition queries :: "panel \<Rightarrow> nat" where
  "queries p = length (filter is_query (trace p))"

section \<open>Drawing\<close>

text \<open>
  The screen surface belongs to the base classes, which are not among the sources. \<open>draw\<close>
  reaches it through \<open>color_reset\<close>, \<open>addstr\<close> and \<open>color_at\<close> only, so its output is the
  sequence of these calls with their arguments. An attribute is \<open>0\<close> or a string.
\<close>

datatype attr = Attr0 | Attr pystr

datatype cmd =
    ColorReset
  | AddStr int int pystr
  | ColorAt int int int pystr attr

text \<open>
  What \<open>draw\<close> reads outside the panel: the text \<open>time.strftime('%a %b %d %H:%M:%S %Y')\<close>
  of the clock, and \<open>self.parent.selected.process.device\<close>, which is \<open>None\<close> when the
  attribute lookup fails.
\<close>

record draw_env =
  clock_text :: pystr
  selected_device :: "nat option"

text \<open>\<open>enumerate(xs, start)\<close>.\<close>

definition enumerate_from :: "int \<Rightarrow> 'a list \<Rightarrow> (int \<times> 'a) list" where
  "enumerate_from start xs = zip (map (\<lambda>k. start + int k) [0..<length xs]) xs"

text \<open>
  The body of the loop over the snapshots (lines 215 to 253), for the snapshot \<open>device\<close> at
  position \<open>index\<close>. \<open>make_bar\<close> of \<open>nvitop.gui.library.utils\<close> is a parameter. The default
  pad string and alignment of \<open>cut_string\<close>, used for the clock, are \<open>'...'\<close> and left.
\<close>

definition draw_device ::
  "(pystr \<Rightarrow> int \<Rightarrow> int \<Rightarrow> pystr) \<Rightarrow> draw_env \<Rightarrow> panel \<Rightarrow> int \<times> snapshot \<Rightarrow> cmd list" where
  "draw_device make_bar env p entry =
     (let index = fst entry; device = snd entry;
          formats = (if compact p then formats_compact p else formats_full p);
          remaining_width = width p - 79;
          draw_bars = (width p \<ge> 100);
          x0 = x_pos (base p);
          y_start = y_pos (base p) + 4 + (int (length formats) + 1) * (index + 1);
          att = (case selected_device env of
                   Some sel \<Rightarrow> (if real_device device = sel then Attr (lit ''bold'')
                                else Attr (lit ''dim''))
                 | None \<Rightarrow> Attr0);
          rows = concat (map (\<lambda>(y, f).
                   [AddStr y x0 (format_row f device),
                    ColorAt y (x0 + 1) 31 (display_color device) att,
                    ColorAt y (x0 + 33) 22 (display_color device) att,
                    ColorAt y (x0 + 56) 22 (display_color device) att])
                   (enumerate_from y_start formats));
          matrix0 =
            [(0, y_start, remaining_width - 3, lit ''MEM'', memory_percent device,
              memory_display_color device),
             (0, y_start + 1, remaining_width - 3, lit ''UTL'', gpu_utilization device,
              gpu_display_color device)];
          left_width = (remaining_width - 6 + 1) div 2 - 1;
          right_width = (remaining_width - 6) div 2 + 1;
          matrix =
            (if compact p
             then (if remaining_width \<ge> 44
                   then [(0, y_start, left_width, lit ''MEM'', memory_percent device,
                          memory_display_color device),
                         (left_width + 3, y_start, right_width, lit ''UTL'',
                          gpu_utilization device, gpu_display_color device)]
                   else butlast matrix0)
             else matrix0);
          joints =
            (if compact p \<and> remaining_width \<ge> 44
             then [AddStr (y_start - 1) (x0 + 80 + left_width + 1)
                     (if index > 0 then [0x253C] else [0x2564]),
                   AddStr y_start (x0 + 80 + left_width + 1) [BV]]
                  @ (if index = int (length (snapshots p)) - 1
                     then [AddStr (y_start + 1) (x0 + 80 + left_width + 1) [0x2567]]
                     else [])
             else []);
          bars = concat (map (\<lambda>(x_offset, y, w, prefix, utilization, color).
                   [AddStr y (x0 + 80 + x_offset) (make_bar prefix utilization w),
                    ColorAt y (x0 + 80 + x_offset) w color att])
                   matrix)
      in rows @ (if draw_bars then joints @ bars else []))"

text \<open>
  \<open>draw\<close> (lines 191 to 253). It returns what it wrote to the surface and the panel as it
  leaves it; an exception of \<open>frame_lines\<close> ends it.
\<close>

definition draw ::
  "bool \<Rightarrow> (pystr \<Rightarrow> int \<Rightarrow> int \<Rightarrow> pystr) \<Rightarrow> draw_env \<Rightarrow> panel \<Rightarrow> pyerror + cmd list \<times> panel" where
  "draw windows make_bar env p =
     (let x0 = x_pos (base p); y0 = y_pos (base p);
          stamp = AddStr y0 x0 (cut_string (clock_text env) 32 (lit ''...'') AlignLeft);
          rows = concat (map (draw_device make_bar env p) (enumerate_from 0 (snapshots p)))
      in if need_redraw (base p)
         then
           (case frame_lines windows p None of
              Inl e \<Rightarrow> Inl e
            | Inr frame \<Rightarrow>
                Inr ([ColorReset,
                      AddStr y0 x0 (rjust 79 (lit ''(Press h for help or q to quit)'')),
                      ColorAt y0 (x0 + 55) 1 (lit ''magenta'') (Attr (lit ''bold | italic'')),
                      ColorAt y0 (x0 + 69) 1 (lit ''magenta'') (Attr (lit ''bold | italic''))]
                     @ map (\<lambda>(y, line). AddStr y x0 line) (enumerate_from (y0 + 1) frame)
                     @ [stamp] @ rows, p))
         else Inr ([ColorReset, stamp] @ rows, p))"

section \<open>The command line program\<close>

text \<open>
  The arguments as \<open>parse_arguments\<close> returns them. \<open>monitor\<close> is \<open>None\<close> when the
  namespace has no attribute \<open>monitor\<close>, \<open>Some None\<close> when the attribute is \<open>None\<close>.
\<close>

record args =
  force_color :: bool
  once :: bool
  monitor :: "pystr option option"
  ascii :: bool
  light :: bool
  gpu_util_thresh :: "int list option"
  mem_util_thresh :: "int list option"
  only :: "int list option"
  only_visible :: bool

text \<open>An error of the provider: the library was not found, or any other error, with its
  text \<open>str(e)\<close>.\<close>

datatype nvml_error = NVMLError_LibraryNotFound pystr | NVMLError pystr

text \<open>How the interactive session ends: \<open>libcurses\<close> or the constructor of \<open>Top\<close> raises
  \<open>curses.error\<close>, or the loop raises it, or the loop returns.\<close>

datatype session = InitFailed pystr | LoopFailed pystr | LoopReturned

text \<open>What \<open>main\<close> reads from the world outside.\<close>

record main_env =
  TTY :: bool
  monitor_always :: bool
  monitor_mode :: pystr
  setlocale_utf8 :: bool
  device_count_result :: "nvml_error + nat"
  cuda_visible_devices :: "int list"
  session_result :: session
  stdout_isatty :: bool
  under_watch :: bool
  unknown_functions :: "pystr list"

text \<open>What \<open>main\<close> does to the world outside: a line printed to the error stream, and the
  calls that build, run, print and destroy the dashboard.\<close>

datatype action =
    SetColor
  | SetGpuThresholds "int list"
  | SetMemoryThresholds "int list"
  | Stderr pystr
  | TopNew "int list" bool "pystr option"
  | TopLoop
  | TopPrint
  | TopDestroy

datatype main_error = CursesError pystr

text \<open>\<open>str(i)\<close> and \<open>str(xs)\<close> for an integer and a list of integers.\<close>

definition str_int :: "int \<Rightarrow> pystr" where
  "str_int i = (if i < 0 then 45 # str_nat (nat (- i)) else str_nat (nat i))"

fun join_comma :: "pystr list \<Rightarrow> pystr" where
  "join_comma [] = []"
| "join_comma [a] = a"
| "join_comma (a # b # cs) = a @ lit '', '' @ join_comma (b # cs)"

definition str_int_list :: "int list \<Rightarrow> pystr" where
  "str_int_list xs = 91 # join_comma (map str_int xs) @ [93]"

text \<open>
  The first part of \<open>main\<close> (lines 108 to 125): the messages and the mode of the monitor.
  Deleting the attribute \<open>monitor\<close> gives \<open>None\<close>.
\<close>

definition resolve_monitor :: "main_env \<Rightarrow> args \<Rightarrow> pystr list \<times> args" where
  "resolve_monitor env a0 =
     (let (m1, a1) = (if once a0 \<and> monitor a0 \<noteq> None
                      then ([lit ''ERROR: Both `--once` and `--monitor` switches are on.''],
                            a0\<lparr>monitor := None\<rparr>)
                      else ([], a0));
          a2 = (if \<not> once a1 \<and> monitor a1 = None \<and> TTY env \<and> monitor_always env
                then a1\<lparr>monitor := Some None\<rparr> else a1);
          (m3, a3) = (if monitor a2 \<noteq> None \<and> \<not> TTY env
                      then (m1 @ [lit ''ERROR: You must run monitor mode from a TTY terminal.''],
                            a2\<lparr>monitor := None\<rparr>)
                      else (m1, a2));
          a4 = (if monitor a3 = Some None
                then (let mode = monitor_mode env;
                          mode' = (if mode \<notin> {lit ''auto'', lit ''full'', lit ''compact''}
                                   then lit ''auto'' else mode)
                      in a3\<lparr>monitor := Some (Some mode')\<rparr>)
                else a3)
      in (m3, a4))"

text \<open>Lines 143 to 155: the devices to show, and the messages about invalid indices.\<close>

definition select_devices :: "main_env \<Rightarrow> args \<Rightarrow> nat \<Rightarrow> pystr list \<times> int list" where
  "select_devices env a n_devices =
     (let all_indices = map int [0..<n_devices]
      in case only a of
           Some os \<Rightarrow>
             (let invalid_indices = filter (\<lambda>i. i \<notin> set all_indices) (remdups os);
                  indices = filter (\<lambda>i. i \<in> set all_indices) (remdups os);
                  ms = (if length invalid_indices > 1
                        then [lit ''ERROR: Invalid device indices: ''
                                @ str_int_list (sort invalid_indices) @ lit ''.'']
                        else if length invalid_indices = 1
                        then [lit ''ERROR: Invalid device index: ''
                                @ str_int (hd invalid_indices) @ lit ''.'']
                        else [])
              in (ms, sort (remdups indices)))
         | None \<Rightarrow>
             (if only_visible a then ([], sort (remdups (cuda_visible_devices env)))
              else ([], sort (remdups all_indices))))"

text \<open>Lines 194 to 206: the messages about functions that the provider does not know.
  \<open>colored\<close> of \<open>nvitop.gui.library.utils\<close> is a parameter: the text, the colour, the
  attributes.\<close>

definition unknown_function_messages ::
  "(pystr \<Rightarrow> pystr option \<Rightarrow> pystr list \<Rightarrow> pystr) \<Rightarrow> pystr list \<Rightarrow> pystr list" where
  "unknown_function_messages colored fs =
     (if length fs > 0
      then
        (let m0 = lit ''ERROR: A FunctionNotFound error occurred while calling:'';
             m1 = (if length fs > 1
                   then str_replace (lit ''A FunctionNotFound error'')
                          (lit ''Some FunctionNotFound errors'') None m0
                   else m0);
             pkg = colored (lit ''nvidia-ml-py'') None [lit ''bold''];
             url = colored (lit ''https://github.com/XuehaiPan/nvitop#installation'') None
                     [lit ''underline'']
         in [m1]
            @ map (\<lambda>f. lit ''    nvmlQuery('' @ [39] @ f @ [39] @ lit '', *args, **kwargs)'') fs
            @ [lit ''Please verify whether the `'' @ pkg
                 @ lit ''` package is compatible with your NVIDIA driver version.'' @ [10]
                 @ lit ''You can check the release history of `'' @ pkg
                 @ lit ''` and install the compatible version manually.'' @ [10]
                 @ lit ''See '' @ url @ lit '' for more information.''])
      else [])"

text \<open>Lines 207 to 213: the messages are printed to the error stream, one call of
  \<open>print\<close> for each.\<close>

definition print_messages ::
  "(pystr \<Rightarrow> pystr option \<Rightarrow> pystr list \<Rightarrow> pystr) \<Rightarrow> pystr list \<Rightarrow> action list" where
  "print_messages colored ms =
     map (\<lambda>m. Stderr (if startswith m (lit ''ERROR:'')
                       then str_replace (lit ''ERROR:'')
                              (colored (lit ''ERROR:'') (Some (lit ''red'')) [lit ''bold''])
                              (Some 1) m
                       else m)) ms"

text \<open>
  \<open>main\<close> (lines 102 to 213): the actions, in order, and the exit status, or the exception
  that leaves \<open>main\<close>. The filters of processes (lines 157 to 167) only go into \<open>Top\<close> and
  are left out.
\<close>

definition main ::
  "(pystr \<Rightarrow> pystr option \<Rightarrow> pystr list \<Rightarrow> pystr) \<Rightarrow> main_env \<Rightarrow> args \<Rightarrow>
   action list \<times> (main_error + int)" where
  "main colored env a0 =
     (let acts0 = (if force_color a0 then [SetColor] else []);
          (messages1, a1) = resolve_monitor env a0;
          a2 = (if \<not> setlocale_utf8 env then a1\<lparr>ascii := True\<rparr> else a1)
      in case device_count_result env of
           Inl (NVMLError_LibraryNotFound e) \<Rightarrow> (acts0, Inr 1)
         | Inl (NVMLError e) \<Rightarrow>
             (acts0 @ [Stderr (colored (lit ''NVML ERROR:'') (Some (lit ''red'')) [lit ''bold'']
                               @ lit '' '' @ e)],
              Inr 1)
         | Inr n_devices \<Rightarrow>
             (let acts1 = acts0 @
                    (case gpu_util_thresh a2 of
                       Some th \<Rightarrow> [SetGpuThresholds (sort th)] | None \<Rightarrow> [])
                    @ (case mem_util_thresh a2 of
                         Some th \<Rightarrow> [SetMemoryThresholds (sort th)] | None \<Rightarrow> []);
                  (messages2, devs) = select_devices env a2 n_devices;
                  messages3 = messages1 @ messages2;
                  interactive = (monitor a2 \<noteq> None \<and> length devs > 0);
                  top_new = TopNew devs (ascii a2)
                              (case monitor a2 of Some m \<Rightarrow> m | None \<Rightarrow> None);
                  hint = (if \<not> stdout_isatty env \<and> under_watch env
                          then [Stderr (lit (''HINT: You are running `nvitop` under `watch` ''
                                  @ ''command. Please try `nvitop -m` directly.''))]
                          else []);
                  plain = [TopNew devs (ascii a2) None] @ hint;
                  finish = (\<lambda>acts messages.
                    (let acts' = acts @ [TopPrint, TopDestroy];
                         messages' = messages @ unknown_function_messages colored
                                                  (unknown_functions env)
                     in if length messages' > 0
                        then (acts' @ print_messages colored messages', Inr 1)
                        else (acts', Inr 0)))
              in if interactive
                 then (case session_result env of
                         InitFailed e \<Rightarrow>
                           finish (acts1 @ plain)
                             (messages3 @ [lit ''ERROR: Failed to initialize `curses` (''
                                             @ e @ lit '')''])
                       | LoopFailed e \<Rightarrow> (acts1 @ [top_new, TopLoop], Inl (CursesError e))
                       | LoopReturned \<Rightarrow> finish (acts1 @ [top_new, TopLoop]) messages3)
                 else finish (acts1 @ plain) messages3))"

section \<open>The states of a panel\<close>

text \<open>
  The states that a panel goes through: the constructor makes the first one, and the
  methods of the panel and the steps of its snapshot thread lead from one to the next.
  \<open>poke\<close> contributes its parts: the start of the thread, also when it fails, and the
  store of a list read from the buffer in a state \<open>q\<close> of the same devices, the thread
  having moved the panel on to \<open>p\<close> since.
  \<open>staged f t p\<close> is the list that a query of the devices at time \<open>t\<close> produces, and
  \<open>panel_inv\<close> collects what holds in every state.
\<close>

inductive reachable :: "(rat \<Rightarrow> nat \<Rightarrow> snapshot) \<Rightarrow> panel \<Rightarrow> bool"
  for f :: "rat \<Rightarrow> nat \<Rightarrow> snapshot" where
  r_init: "reachable f (init base0 rw devs c drv cuda win f t)"
| r_width: "reachable f p \<Longrightarrow> reachable f (width_setter v p)"
| r_compact: "reachable f p \<Longrightarrow> reachable f (compact_setter c p)"
| r_take: "reachable f p \<Longrightarrow> reachable f (snd (take_snapshots f t p))"
| r_poke_start: "reachable f p \<Longrightarrow> poke_start p = Inr p' \<Longrightarrow> reachable f p'"
| r_poke_fail: "reachable f p \<Longrightarrow> poke_start p = Inl (e, p') \<Longrightarrow> reachable f p'"
| r_poke_store:
    "reachable f q \<Longrightarrow> reachable f p \<Longrightarrow> devices q = devices p \<Longrightarrow>
     reachable f (poke_store sp (poke_read q) p)"
| r_destroy: "reachable f p \<Longrightarrow> reachable f (destroy sd p)"
| r_daemon: "reachable f p \<Longrightarrow> reachable f (snd (snapshot_target_step f (t, p)))"

definition staged :: "(rat \<Rightarrow> nat \<Rightarrow> snapshot) \<Rightarrow> rat \<Rightarrow> panel \<Rightarrow> snapshot list" where
  "staged f t p = map derive_snapshot (map (f t) (devices p))"

definition panel_inv :: "(rat \<Rightarrow> nat \<Rightarrow> snapshot) \<Rightarrow> panel \<Rightarrow> bool" where
  "panel_inv f p \<longleftrightarrow>
     device_count p = length (devices p)
     \<and> full_height p = (if devices p = [] then 6 else 4 + 3 * (int (length (devices p)) + 1))
     \<and> compact_height p = (if devices p = [] then 6 else 4 + 2 * (int (length (devices p)) + 1))
     \<and> (\<exists>t. m_snapshot_buffer p = staged f t p)
     \<and> (\<exists>t. m_snapshots p = staged f t p)
     \<and> (\<forall>e v. ttl_entry p = Some (e, v) \<longrightarrow> (\<exists>t. e = t + ttl \<and> v = staged f t p))"

text \<open>An example of a provider and of a panel, for concrete instances of the properties.\<close>

definition demo_snapshot :: "rat \<Rightarrow> nat \<Rightarrow> snapshot" where
  "demo_snapshot t d =
     \<lparr>real_device = d, index = d, name = lit ''NVIDIA GeForce RTX 3090 Ti'',
      fan_speed = 100, fan_speed_string = lit ''100%'', temperature_string = lit ''61C'',
      performance_state = lit ''P2'', power_status = lit ''320W / 450W'',
      memory_usage = lit ''10.5GiB / 24.0GiB'', gpu_utilization_string = lit ''97%'',
      compute_mode = lit ''Exclusive Process'', persistence_mode = lit ''Enabled'',
      current_driver_model = lit ''N/A'', bus_id = lit ''00000000:01:00.0'',
      display_active = lit ''Disabled'', total_volatile_uncorrected_ecc_errors = lit ''N/A'',
      mig_mode = lit ''N/A'', memory_percent = 43, gpu_utilization = 97,
      display_color = lit ''red'', memory_display_color = lit ''yellow'',
      gpu_display_color = lit ''red''\<rparr>"

definition demo_base :: displayable where
  "demo_base = \<lparr>x_pos = 0, y_pos = 0, m_width = 0, height = 0, visible = True,
                 need_redraw = True\<rparr>"

definition demo_panel :: "nat list \<Rightarrow> panel" where
  "demo_panel devs =
     init demo_base 120 devs False (lit ''470.57.02'') (lit ''11.4'') False demo_snapshot 0"



text \<open>A series of calls of \<open>take_snapshots\<close>, at the given times.\<close>

fun take_snapshots_at :: "(rat \<Rightarrow> nat \<Rightarrow> snapshot) \<Rightarrow> rat list \<Rightarrow> panel \<Rightarrow> panel" where
  "take_snapshots_at f [] p = p"
| "take_snapshots_at f (t # ts) p = take_snapshots_at f ts (snd (take_snapshots f t p))"

text \<open>The times \<open>ts\<close> are spaced beyond the window: each is more than \<open>ttl\<close> after the one
  before, the first after \<open>t\<close>.\<close>

fun spaced :: "rat \<Rightarrow> rat list \<Rightarrow> bool" where
  "spaced t [] = True"
| "spaced t (u # us) = (t + ttl < u \<and> spaced u us)"


text \<open>The queries that the snapshot thread can still make once its flag is cleared: those
  of the call of \<open>take_snapshots\<close> that it is in, if it is in one.\<close>

definition pending :: "panel \<Rightarrow> nat" where
  "pending p = (if daemon_pc p = InQuery then length (devices p) else 0)"

definition demo_make_bar :: "pystr \<Rightarrow> int \<Rightarrow> int \<Rightarrow> pystr" where
  "demo_make_bar prefix utilization w = prefix @ lit '': '' @ str_int utilization @ lit ''%''"

text \<open>The lines printed to the error stream and the dashboards built, among the actions of
  \<open>main\<close>; and an example of arguments and of a world.\<close>

fun is_stderr :: "action \<Rightarrow> bool" where
  "is_stderr (Stderr m) = True"
| "is_stderr a = False"

fun is_top_new :: "action \<Rightarrow> bool" where
  "is_top_new (TopNew ds asc m) = True"
| "is_top_new a = False"

definition demo_colored :: "pystr \<Rightarrow> pystr option \<Rightarrow> pystr list \<Rightarrow> pystr" where
  "demo_colored text color attrs = text"

definition demo_args :: args where
  "demo_args = \<lparr>force_color = False, once = False, monitor = None, ascii = False,
                 light = False, gpu_util_thresh = None, mem_util_thresh = None,
                 only = None, only_visible = False\<rparr>"

definition demo_env :: "nvml_error + nat \<Rightarrow> main_env" where
  "demo_env r = \<lparr>TTY = True, monitor_always = True, monitor_mode = lit ''auto'',
                  setlocale_utf8 = True, device_count_result = r,
                  cuda_visible_devices = [], session_result = LoopReturned,
                  stdout_isatty = True, under_watch = False, unknown_functions = []\<rparr>"

section \<open>Properties\<close>

lemma str_replace_prefix_once:
  assumes "startswith s old" and "old \<noteq> []"
  shows "str_replace old new (Some 1) s = new @ drop (length old) s"
proof -
  from assms have s: "s \<noteq> []" and t: "take (length old) s = old"
    by (auto simp: startswith_def)
  have "str_replace old new (Some 0) (drop (length old) s) = drop (length old) s"
    using assms(2) by (simp add: str_replace.simps)
  with s t assms(2) show ?thesis
    by (subst str_replace.simps) simp
qed


subsection \<open>What the operations leave alone\<close>

lemma cache_miss_eq:
  "cache_miss f t p =
     (staged f t p,
      p\<lparr>m_snapshot_buffer := staged f t p,
        trace := trace p @ map Query (devices p) @ [Acquire, StoreBuffer, Release],
        ttl_entry := Some (t + ttl, staged f t p)\<rparr>)"
  by (simp add: cache_miss_def take_snapshots_body_def Let_def staged_def)

lemma base_take_snapshots: "base (snd (take_snapshots f t p)) = base p"
  by (simp add: take_snapshots_def cache_miss_eq split: option.splits prod.splits)

lemma base_snapshots_setter: "base (snapshots_setter r p) = base p"
  by (simp add: snapshots_setter_def Let_def)

lemma width_init_geometry: "width (init_geometry base0 rw devs c) = max 79 rw"
  by (simp add: init_geometry_def Let_def width_def width_setter_def)

lemma base_init_snapshots: "base (init_snapshots drv cuda f t p) = base p"
proof -
  let ?q = "p\<lparr>driver_version := drv, cuda_version := cuda,
              m_snapshot_buffer := [], m_snapshots := []\<rparr>"
  obtain r p3 where tk: "take_snapshots f t ?q = (r, p3)"
    by fastforce
  from base_take_snapshots [of f t ?q] tk have "base p3 = base p"
    by simp
  with tk show ?thesis
    by (simp add: init_snapshots_def Let_def base_snapshots_setter)
qed

lemma base_init_formats: "base (init_formats w p) = base p"
  by (simp add: init_formats_def Let_def)

lemma width_init: "width (init base0 rw devs c drv cuda win f t) = max 79 rw"
  using width_init_geometry [of base0 rw devs c]
  by (simp add: init_def width_def base_init_formats base_init_snapshots)

lemma width_width_setter: "width (width_setter v p) = max 79 v"
  by (simp add: width_def width_setter_def Let_def)

subsection \<open>The width of the panel\<close>

text \<open>
  C9. The width of the panel is at least 79: the constructor leaves it at
  \<open>max(79, root.width)\<close>, an assignment of any value \<open>v\<close> through the setter stores
  \<open>max(79, v)\<close>, and so after the constructor and any sequence \<open>vs\<close> of assignments
  through the setter the width is at least 79.
\<close>

theorem width_at_least_79:
  "width (init base0 rw devs c drv cuda win f t) = max 79 rw
   \<and> width (width_setter v p) = max 79 v
   \<and> 79 \<le> width (width_setter v p)
   \<and> 79 \<le> width (fold width_setter vs (init base0 rw devs c drv cuda win f t))"
proof -
  have "79 \<le> width (fold width_setter vs q)" if "79 \<le> width q" for q
    using that by (induction vs arbitrary: q) (simp_all add: width_width_setter)
  then show ?thesis
    by (simp add: width_init width_width_setter)
qed

subsection \<open>What holds in every state\<close>

lemma inv_cache_miss: "panel_inv f p \<Longrightarrow> panel_inv f (snd (cache_miss f t p))"
  unfolding panel_inv_def cache_miss_eq by (auto simp: staged_def)

lemma inv_take: "panel_inv f p \<Longrightarrow> panel_inv f (snd (take_snapshots f t p))"
  by (auto simp: take_snapshots_def inv_cache_miss split: option.splits)

lemma inv_width: "panel_inv f p \<Longrightarrow> panel_inv f (width_setter v p)"
  by (auto simp: panel_inv_def width_setter_def Let_def staged_def)

lemma inv_compact: "panel_inv f p \<Longrightarrow> panel_inv f (compact_setter v p)"
  by (auto simp: panel_inv_def compact_setter_def Let_def staged_def)

lemma inv_destroy: "panel_inv f p \<Longrightarrow> panel_inv f (destroy sd p)"
  by (auto simp: panel_inv_def destroy_def Let_def staged_def)

lemma inv_poke_start: "panel_inv f p \<Longrightarrow> poke_start p = Inr p' \<Longrightarrow> panel_inv f p'"
  by (auto simp: panel_inv_def poke_start_def thread_start_def Let_def staged_def
      split: if_splits)

lemma inv_poke_fail: "panel_inv f p \<Longrightarrow> poke_start p = Inl (e, p') \<Longrightarrow> panel_inv f p'"
  by (auto simp: panel_inv_def poke_start_def thread_start_def Let_def staged_def
      split: if_splits)

lemma inv_poke_store:
  "panel_inv f q \<Longrightarrow> panel_inv f p \<Longrightarrow> devices q = devices p \<Longrightarrow>
   panel_inv f (poke_store sp (poke_read q) p)"
  by (auto simp: panel_inv_def poke_store_def poke_read_def snapshots_setter_def Let_def
        staged_def)

lemma inv_pc: "panel_inv f p \<Longrightarrow> panel_inv f (p\<lparr>daemon_pc := c\<rparr>)"
  by (auto simp: panel_inv_def staged_def)

lemma inv_daemon: "panel_inv f p \<Longrightarrow> panel_inv f (snd (snapshot_target_step f (t, p)))"
  using inv_take [of f p t]
  by (auto simp: inv_pc snapshot_target_step.simps split: pc.splits)

lemma inv_init_geometry:
  "let p = init_geometry base0 rw devs c in
     device_count p = length devs \<and> devices p = devs
     \<and> full_height p = (if devs = [] then 6 else 4 + 3 * (int (length devs) + 1))
     \<and> compact_height p = (if devs = [] then 6 else 4 + 2 * (int (length devs) + 1))
     \<and> ttl_entry p = None"
  by (simp add: init_geometry_def Let_def width_setter_def)

lemma init_snapshots_eq:
  "ttl_entry p = None \<Longrightarrow>
   init_snapshots drv cuda f t p =
     p\<lparr>driver_version := drv, cuda_version := cuda,
       m_snapshot_buffer := staged f t p, m_snapshots := staged f t p,
       trace := trace p @ map Query (devices p)
                @ [Acquire, StoreBuffer, Release, Acquire, StoreSnapshots, Release],
       ttl_entry := Some (t + ttl, staged f t p),
       daemon_pc := NotStarted, m_daemon_running := False\<rparr>"
  by (simp add: init_snapshots_def take_snapshots_def cache_miss_eq snapshots_setter_def Let_def staged_def)

lemma inv_init_formats: "panel_inv f p \<Longrightarrow> panel_inv f (init_formats w p)"
  by (auto simp: panel_inv_def init_formats_def Let_def staged_def)

lemma inv_init: "panel_inv f (init base0 rw devs c drv cuda win f t)"
proof -
  let ?g = "init_geometry base0 rw devs c"
  from inv_init_geometry [of base0 rw devs c]
  have g: "device_count ?g = length devs" "devices ?g = devs"
    "full_height ?g = (if devs = [] then 6 else 4 + 3 * (int (length devs) + 1))"
    "compact_height ?g = (if devs = [] then 6 else 4 + 2 * (int (length devs) + 1))"
    "ttl_entry ?g = None"
    by (simp_all add: Let_def)
  have "panel_inv f (init_snapshots drv cuda f t ?g)"
    unfolding init_snapshots_eq [OF g(5)] using g(1-4)
    by (auto simp: panel_inv_def staged_def)
  then show ?thesis
    by (simp add: init_def inv_init_formats)
qed

lemma reachable_inv: "reachable f p \<Longrightarrow> panel_inv f p"
proof (induction rule: reachable.induct)
  case (r_init base0 rw devs c drv cuda win t)
  show ?case by (rule inv_init)
next
  case (r_width p v)
  then show ?case by (simp only: inv_width)
next
  case (r_compact p c)
  then show ?case by (simp only: inv_compact)
next
  case (r_take p t)
  then show ?case by (simp only: inv_take)
next
  case (r_poke_start p p')
  then show ?case by (blast intro: inv_poke_start)
next
  case (r_poke_fail p e p')
  then show ?case by (blast intro: inv_poke_fail)
next
  case (r_poke_store q p sp)
  then show ?case by (blast intro: inv_poke_store)
next
  case (r_destroy p sd)
  then show ?case by (simp only: inv_destroy)
next
  case (r_daemon p t)
  then show ?case by (simp only: inv_daemon)
qed


lemma devices_init_formats: "devices (init_formats w p) = devices p"
  by (simp add: init_formats_def Let_def)

lemma ttl_entry_init_formats: "ttl_entry (init_formats w p) = ttl_entry p"
  by (simp add: init_formats_def Let_def)

lemma devices_init: "devices (init base0 rw devs c drv cuda win f t) = devs"
  using inv_init_geometry [of base0 rw devs c]
  by (simp add: init_def devices_init_formats init_snapshots_eq Let_def)

lemma ttl_entry_init:
  "ttl_entry (init base0 rw devs c drv cuda win f t)
     = Some (t + ttl, map derive_snapshot (map (f t) devs))"
  using inv_init_geometry [of base0 rw devs c]
  by (simp add: init_def ttl_entry_init_formats init_snapshots_eq Let_def staged_def)

lemma cut_string_length:
  "length padstr \<le> maxlen \<Longrightarrow> length (cut_string s maxlen padstr al) \<le> maxlen"
  by (cases al) (auto simp: cut_string_def)

lemma length_lit: "length (lit s) = length s"
  by (simp add: lit_def)

lemma name_derive_snapshot:
  "name (derive_snapshot d) =
     cut_string (if startswith (name d) (lit ''NVIDIA '') then drop 7 (name d) else name d)
       18 (lit ''..'') AlignRight"
proof (cases "startswith (name d) (lit ''NVIDIA '')")
  case True
  have ne: "lit ''NVIDIA '' \<noteq> []" by (simp add: lit_def)
  from str_replace_prefix_once [OF True ne, of "[]"]
  have "str_replace (lit ''NVIDIA '') [] (Some 1) (name d) = drop 7 (name d)"
    by (simp add: length_lit eval_nat_numeral)
  with True show ?thesis
    by (simp add: derive_snapshot_def Let_def)
next
  case False
  then show ?thesis
    by (simp add: derive_snapshot_def Let_def)
qed

lemma fan_derive_snapshot:
  "fan_speed (derive_snapshot d) = fan_speed d
   \<and> fan_speed_string (derive_snapshot d)
       = (if 100 \<le> fan_speed d then lit ''MAX'' else fan_speed_string d)"
  by (simp add: derive_snapshot_def Let_def)

lemma take_snapshots_result:
  assumes "panel_inv f p"
  shows "\<exists>t. fst (take_snapshots f now p) = staged f t p"
  using assms
  by (auto simp: take_snapshots_def cache_miss_eq panel_inv_def split: option.splits)

subsection \<open>The snapshots that \<open>take_snapshots\<close> returns\<close>

text \<open>
  C10. In every state of the panel, every snapshot in the list that \<open>take_snapshots\<close>
  returns is the derived form of a reading \<open>f t d\<close> of a tracked device: its name is the
  name of the reading without one leading \<open>'NVIDIA '\<close>, cut by \<open>cut_string\<close> at 18
  characters with the pad string \<open>'..'\<close> aligned right, so it has at most 18 characters;
  and when the fan speed of the reading is at least 100 its \<open>fan_speed_string\<close> is
  \<open>'MAX'\<close>.
\<close>

theorem take_snapshots_normalized:
  assumes "reachable f p"
  shows "\<forall>s \<in> set (fst (take_snapshots f now p)).
           \<exists>t d. d \<in> set (devices p) \<and> s = derive_snapshot (f t d)
             \<and> name s = cut_string (if startswith (name (f t d)) (lit ''NVIDIA '')
                                     then drop 7 (name (f t d)) else name (f t d))
                          18 (lit ''..'') AlignRight
             \<and> length (name s) \<le> 18
             \<and> (100 \<le> fan_speed (f t d) \<longrightarrow> fan_speed_string s = lit ''MAX'')"
proof
  fix s assume s: "s \<in> set (fst (take_snapshots f now p))"
  from take_snapshots_result [OF reachable_inv [OF assms], of now]
  obtain t where "fst (take_snapshots f now p) = staged f t p" ..
  with s obtain d where d: "d \<in> set (devices p)" "s = derive_snapshot (f t d)"
    by (auto simp: staged_def)
  have "length (name s) \<le> 18"
    unfolding d(2) name_derive_snapshot
    by (rule cut_string_length) (simp add: length_lit)
  with d show "\<exists>t d. d \<in> set (devices p) \<and> s = derive_snapshot (f t d)
             \<and> name s = cut_string (if startswith (name (f t d)) (lit ''NVIDIA '')
                                     then drop 7 (name (f t d)) else name (f t d))
                          18 (lit ''..'') AlignRight
             \<and> length (name s) \<le> 18
             \<and> (100 \<le> fan_speed (f t d) \<longrightarrow> fan_speed_string s = lit ''MAX'')"
    using name_derive_snapshot [of "f t d"] fan_derive_snapshot [of "f t d"]
    by (intro exI [of _ t] exI [of _ d]) simp
qed

theorem take_snapshots_normalized_witness:
  "reachable demo_snapshot (demo_panel [0])
   \<and> (\<exists>s. s \<in> set (fst (take_snapshots demo_snapshot (1 / 2) (demo_panel [0])))
          \<and> name s = lit ''..orce RTX 3090 Ti'' \<and> length (name s) \<le> 18 \<and> fan_speed_string s = lit ''MAX'')"
proof -
  have r: "reachable demo_snapshot (demo_panel [0])"
    unfolding demo_panel_def by (rule r_init)
  have e: "fst (take_snapshots demo_snapshot (1 / 2) (demo_panel [0]))
             = [derive_snapshot (demo_snapshot 0 0)]"
    by (simp add: take_snapshots_def demo_panel_def ttl_entry_init ttl_def)
  have n: "name (demo_snapshot 0 0) = lit ''NVIDIA GeForce RTX 3090 Ti''"
    and fs: "fan_speed (demo_snapshot 0 0) = 100"
    by (simp_all add: demo_snapshot_def)
  from take_snapshots_normalized [OF r, of "1 / 2"] e
  obtain t d where td: "derive_snapshot (demo_snapshot 0 0) = derive_snapshot (demo_snapshot t d)" 
     "name (derive_snapshot (demo_snapshot 0 0)) = cut_string (if startswith (name (demo_snapshot t d)) (lit ''NVIDIA '')
                                     then drop 7 (name (demo_snapshot t d)) else name (demo_snapshot t d))
                          18 (lit ''..'') AlignRight"
     "length (name (derive_snapshot (demo_snapshot 0 0))) \<le> 18"
     "100 \<le> fan_speed (demo_snapshot t d) \<longrightarrow> fan_speed_string (derive_snapshot (demo_snapshot 0 0)) = lit ''MAX''"
    by auto
  have n': "name (demo_snapshot t d) = lit ''NVIDIA GeForce RTX 3090 Ti''"
    and fs': "fan_speed (demo_snapshot t d) = 100"
    by (simp_all add: demo_snapshot_def)
  have "name (derive_snapshot (demo_snapshot 0 0)) = lit ''..orce RTX 3090 Ti''"
    unfolding td(2) n' by (simp add: startswith_def cut_string_def lit_def)
  with td(3,4) fs' r e show ?thesis
    by simp
qed



lemma devices_demo: "devices (demo_panel ds) = ds"
  by (simp add: demo_panel_def devices_init)

lemma ttl_entry_demo:
  "ttl_entry (demo_panel ds) = Some (0 + ttl, map derive_snapshot (map (demo_snapshot 0) ds))"
  by (simp add: demo_panel_def ttl_entry_init)




lemma take_snapshots_thread:
  "daemon_pc (snd (take_snapshots f t p)) = daemon_pc p
   \<and> m_daemon_running (snd (take_snapshots f t p)) = m_daemon_running p
   \<and> devices (snd (take_snapshots f t p)) = devices p"
  by (simp add: take_snapshots_def cache_miss_eq split: option.splits)

subsection \<open>The dedup window of \<open>take_snapshots\<close>\<close>

lemma queries_append: "length (filter is_query (es @ map Query ds @ [Acquire, StoreBuffer, Release]))
   = length (filter is_query es) + length ds"
  by (induction ds) simp_all

lemma take_snapshots_hit:
  "ttl_entry p = Some (e, v) \<Longrightarrow> now < e \<Longrightarrow> take_snapshots f now p = (v, p)"
  by (simp add: take_snapshots_def)

lemma take_snapshots_miss:
  "ttl_entry p = Some (e, v) \<Longrightarrow> e \<le> now \<Longrightarrow> take_snapshots f now p = cache_miss f now p"
  by (simp add: take_snapshots_def)

lemma queries_cache_miss:
  "queries (snd (cache_miss f t p)) = queries p + length (devices p)"
  by (simp add: cache_miss_eq queries_def queries_append del: filter_append)

lemma take_at_window:
  "ttl_entry p = Some (e, v) \<Longrightarrow> \<forall>t \<in> set ts. t < e \<Longrightarrow> take_snapshots_at f ts p = p"
  by (induction ts) (simp_all add: take_snapshots_hit)

lemma take_at_spaced:
  "ttl_entry p = Some (e, v) \<Longrightarrow> e \<le> t + ttl \<Longrightarrow> spaced t ts \<Longrightarrow>
   queries (take_snapshots_at f ts p) = queries p + length ts * length (devices p)"
proof (induction ts arbitrary: p e v t)
  case Nil
  then show ?case by simp
next
  case (Cons u us)
  let ?q = "snd (cache_miss f u p)"
  from Cons.prems have m: "take_snapshots f u p = cache_miss f u p"
    by (intro take_snapshots_miss [of p e v]) auto
  have q: "ttl_entry ?q = Some (u + ttl, staged f u p)" "devices ?q = devices p"
    by (simp_all add: cache_miss_eq)
  from Cons.prems have "spaced u us" by simp
  from Cons.IH [OF q(1) _ this]
  have "queries (take_snapshots_at f us ?q) = queries ?q + length us * length (devices ?q)"
    by simp
  then show ?case
    by (simp add: m q(2) queries_cache_miss)
qed

lemma queries_take_snapshots:
  "queries (snd (take_snapshots f t p)) \<le> queries p + length (devices p)"
  by (simp add: take_snapshots_def queries_cache_miss split: option.splits)

text \<open>
  C1, as amended. Let the devices have last been queried at time \<open>t0\<close>, with the result
  \<open>v\<close>, so that the cached result expires at \<open>t0 + ttl\<close>. A call less than one time unit
  after \<open>t0\<close> returns \<open>v\<close> and leaves the panel as it is: no query, and the window is not
  prolonged. A call more than one time unit after \<open>t0\<close> queries every tracked device once
  and opens a new window. So any series of calls inside the window makes no query beyond
  the one that opened it, and in a series of calls spaced beyond the window every call
  queries every device.
\<close>

theorem take_snapshots_dedup:
  assumes "ttl_entry p = Some (t0 + ttl, v)"
  shows "(now < t0 + 1 \<longrightarrow> take_snapshots f now p = (v, p))
       \<and> (t0 + 1 < now \<longrightarrow>
            fst (take_snapshots f now p) = staged f now p
            \<and> queries (snd (take_snapshots f now p)) = queries p + length (devices p)
            \<and> ttl_entry (snd (take_snapshots f now p)) = Some (now + ttl, staged f now p))
       \<and> ((\<forall>t \<in> set ts. t < t0 + 1) \<longrightarrow> take_snapshots_at f ts p = p)
       \<and> (spaced t0 ts \<longrightarrow>
            queries (take_snapshots_at f ts p) = queries p + length ts * length (devices p))"
proof (intro conjI impI)
  assume "now < t0 + 1"
  with assms show "take_snapshots f now p = (v, p)"
    by (simp add: take_snapshots_hit ttl_def)
next
  assume "t0 + 1 < now"
  with assms have m: "take_snapshots f now p = cache_miss f now p"
    by (intro take_snapshots_miss [of p "t0 + ttl" v]) (simp_all add: ttl_def)
  show "fst (take_snapshots f now p) = staged f now p"
    and "ttl_entry (snd (take_snapshots f now p)) = Some (now + ttl, staged f now p)"
    by (simp_all add: m cache_miss_eq)
  show "queries (snd (take_snapshots f now p)) = queries p + length (devices p)"
    by (simp add: m queries_cache_miss)
next
  assume "\<forall>t \<in> set ts. t < t0 + 1"
  with assms show "take_snapshots_at f ts p = p"
    by (intro take_at_window [of p "t0 + ttl" v]) (simp_all add: ttl_def)
next
  assume "spaced t0 ts"
  with assms show "queries (take_snapshots_at f ts p) = queries p + length ts * length (devices p)"
    by (intro take_at_spaced [of p "t0 + ttl" v t0]) simp_all
qed

theorem take_snapshots_dedup_witness:
  "ttl_entry (demo_panel [0]) = Some (0 + ttl, map derive_snapshot (map (demo_snapshot 0) [0]))
   \<and> take_snapshots demo_snapshot (7 / 10) (demo_panel [0])
       = (map derive_snapshot (map (demo_snapshot 0) [0]), demo_panel [0])
   \<and> queries (snd (take_snapshots demo_snapshot (7 / 5) (demo_panel [0])))
       = queries (demo_panel [0]) + 1
   \<and> take_snapshots_at demo_snapshot [1 / 10, 7 / 10, 9 / 10] (demo_panel [0]) = demo_panel [0]
   \<and> queries (take_snapshots_at demo_snapshot [11 / 10, 11 / 5, 33 / 10] (demo_panel [0]))
       = queries (demo_panel [0]) + 3"
proof -
  note d = take_snapshots_dedup [OF ttl_entry_demo [of "[0]"], where f = demo_snapshot]
  have 1: "take_snapshots demo_snapshot (7 / 10) (demo_panel [0])
       = (map derive_snapshot (map (demo_snapshot 0) [0]), demo_panel [0])"
    using d [where now = "7 / 10" and ts = "[]"] by simp
  have 2: "queries (snd (take_snapshots demo_snapshot (7 / 5) (demo_panel [0])))
       = queries (demo_panel [0]) + 1"
    using d [where now = "7 / 5" and ts = "[]"] by (simp add: devices_demo)
  have 3: "take_snapshots_at demo_snapshot [1 / 10, 7 / 10, 9 / 10] (demo_panel [0]) = demo_panel [0]"
    using d [where now = 0 and ts = "[1 / 10, 7 / 10, 9 / 10]"] by simp
  have "spaced 0 [11 / 10, 11 / 5, 33 / 10]" by (simp add: ttl_def)
  then have 4: "queries (take_snapshots_at demo_snapshot [11 / 10, 11 / 5, 33 / 10] (demo_panel [0]))
       = queries (demo_panel [0]) + 3"
    using d [where now = 0 and ts = "[11 / 10, 11 / 5, 33 / 10]"] by (simp add: devices_demo)
  from ttl_entry_demo 1 2 3 4 show ?thesis by blast
qed

text \<open>
  The claim as it stands fails: the window is counted from the query, not from the call
  before. With the devices queried at time 0, a call at 7/10 returns the cached list, and
  the call at 7/5, which is 7/10 after the call before it, queries the device again.
\<close>

theorem take_snapshots_dedup_counterexample:
  "(7 / 5 - 7 / 10 < (1 :: rat))
   \<and> queries (snd (take_snapshots demo_snapshot (7 / 5)
                 (snd (take_snapshots demo_snapshot (7 / 10) (demo_panel [0])))))
       = queries (snd (take_snapshots demo_snapshot (7 / 10) (demo_panel [0]))) + 1"
proof -
  have h: "take_snapshots demo_snapshot (7 / 10) (demo_panel [0])
             = (map derive_snapshot (map (demo_snapshot 0) [0]), demo_panel [0])"
    by (rule take_snapshots_hit [OF ttl_entry_demo]) (simp add: ttl_def)
  have m: "take_snapshots demo_snapshot (7 / 5) (demo_panel [0])
             = cache_miss demo_snapshot (7 / 5) (demo_panel [0])"
    by (rule take_snapshots_miss [OF ttl_entry_demo]) (simp add: ttl_def)
  show ?thesis
    by (simp add: h m queries_cache_miss devices_demo)
qed

subsection \<open>The snapshot thread after \<open>destroy\<close>\<close>

lemma step_cleared:
  assumes "\<not> m_daemon_running p"
  shows "\<not> m_daemon_running (snd (snapshot_target_step f (t, p)))
         \<and> queries (snd (snapshot_target_step f (t, p))) + pending (snd (snapshot_target_step f (t, p)))
             \<le> queries p + pending p
         \<and> (daemon_pc p \<noteq> InQuery \<longrightarrow>
              daemon_pc (snd (snapshot_target_step f (t, p))) \<noteq> InQuery
              \<and> trace (snd (snapshot_target_step f (t, p))) = trace p)"
  using assms queries_take_snapshots [of f t p] take_snapshots_thread [of f t p]
  by (cases "daemon_pc p") (simp_all add: snapshot_target_step.simps pending_def queries_def)

lemma run_cleared:
  assumes "\<not> m_daemon_running (snd s)"
  shows "\<not> m_daemon_running (snd ((snapshot_target_step f ^^ n) s))
         \<and> queries (snd ((snapshot_target_step f ^^ n) s)) + pending (snd ((snapshot_target_step f ^^ n) s))
             \<le> queries (snd s) + pending (snd s)
         \<and> (daemon_pc (snd s) \<noteq> InQuery \<longrightarrow>
              daemon_pc (snd ((snapshot_target_step f ^^ n) s)) \<noteq> InQuery
              \<and> trace (snd ((snapshot_target_step f ^^ n) s)) = trace (snd s))"
proof (induction n)
  case 0
  from assms show ?case by simp
next
  case (Suc n)
  let ?s = "(snapshot_target_step f ^^ n) s"
  from Suc have c: "\<not> m_daemon_running (snd ?s)" by simp
  from step_cleared [OF c, where f = f and t = "fst ?s"] Suc show ?case
    by auto
qed

lemma rest_fixed:
  assumes "\<not> m_daemon_running p" and "daemon_pc p \<in> {NotStarted, Waiting, Exited}"
  shows "(snapshot_target_step f ^^ n) (t, p) = (t, p)"
proof -
  from assms have "snapshot_target_step f (t, p) = (t, p)"
    by (auto simp: snapshot_target_step.simps)
  then show ?thesis
    by (induction n) simp_all
qed

lemma three_steps:
  assumes "\<not> m_daemon_running p"
  shows "\<exists>t' p'. (snapshot_target_step f ^^ 3) (t, p) = (t', p')
           \<and> \<not> m_daemon_running p' \<and> daemon_pc p' \<in> {NotStarted, Waiting, Exited}"
  using assms take_snapshots_thread [of f t p]
  by (cases "daemon_pc p") (simp_all add: eval_nat_numeral snapshot_target_step.simps)

text \<open>
  C6. \<open>destroy\<close> clears the flag of the snapshot thread. Wherever the thread stands at
  that moment, after three of its steps it has left its loop for good (or never entered
  it), and nothing changes any more. From then on it makes at most the queries of one call
  of \<open>take_snapshots\<close>: none at all unless it was inside that call when the flag was
  cleared, and in that case the call runs to its end, whatever the flag.
\<close>

theorem destroy_stops_poller:
  "\<not> m_daemon_running (destroy sd p)
   \<and> (\<exists>t' p'. (snapshot_target_step f ^^ 3) (now, destroy sd p) = (t', p')
         \<and> daemon_pc p' \<in> {NotStarted, Waiting, Exited}
         \<and> (\<forall>n. (snapshot_target_step f ^^ n) (t', p') = (t', p')))
   \<and> (\<forall>n. queries (snd ((snapshot_target_step f ^^ n) (now, destroy sd p)))
            \<le> queries p + length (devices p))
   \<and> (daemon_pc p \<noteq> InQuery \<longrightarrow>
        (\<forall>n. trace (snd ((snapshot_target_step f ^^ n) (now, destroy sd p))) = trace p))
   \<and> (daemon_pc p = InQuery \<longrightarrow>
        snapshot_target_step f (now, destroy sd p)
          = (now, (snd (take_snapshots f now (destroy sd p)))\<lparr>daemon_pc := Sleeping\<rparr>))"
proof -
  let ?q = "destroy sd p"
  have q: "\<not> m_daemon_running ?q" "daemon_pc ?q = daemon_pc p" "trace ?q = trace p"
    "devices ?q = devices p" "queries ?q = queries p"
    by (simp_all add: destroy_def Let_def queries_def)
  from three_steps [OF q(1), where f = f and t = now] obtain t' p' where
    s3: "(snapshot_target_step f ^^ 3) (now, ?q) = (t', p')"
      "\<not> m_daemon_running p'" "daemon_pc p' \<in> {NotStarted, Waiting, Exited}"
    by blast
  have 2: "\<exists>t' p'. (snapshot_target_step f ^^ 3) (now, ?q) = (t', p')
         \<and> daemon_pc p' \<in> {NotStarted, Waiting, Exited}
         \<and> (\<forall>n. (snapshot_target_step f ^^ n) (t', p') = (t', p'))"
    using s3 rest_fixed [OF s3(2,3), where f = f and t = t'] by blast
  have 3: "queries (snd ((snapshot_target_step f ^^ n) (now, ?q)))
             \<le> queries p + length (devices p)" for n
    using run_cleared [where s = "(now, ?q)" and f = f and n = n] q
    by (simp add: pending_def split: if_splits)
  have 4: "trace (snd ((snapshot_target_step f ^^ n) (now, ?q))) = trace p"
    if "daemon_pc p \<noteq> InQuery" for n
    using run_cleared [where s = "(now, ?q)" and f = f and n = n] q that by simp
  have 5: "snapshot_target_step f (now, ?q)
          = (now, (snd (take_snapshots f now ?q))\<lparr>daemon_pc := Sleeping\<rparr>)"
    if "daemon_pc p = InQuery"
    using that q by (simp add: snapshot_target_step.simps)
  from q(1) 2 3 4 5 show ?thesis by blast
qed


theorem destroy_stops_poller_witness:
  "daemon_pc ((demo_panel [0])\<lparr>m_daemon_running := True, daemon_pc := InQuery\<rparr>) = InQuery
   \<and> snapshot_target_step demo_snapshot
        (2, destroy id ((demo_panel [0])\<lparr>m_daemon_running := True, daemon_pc := InQuery\<rparr>))
       = (2, (snd (take_snapshots demo_snapshot 2
                (destroy id ((demo_panel [0])\<lparr>m_daemon_running := True,
                                               daemon_pc := InQuery\<rparr>))))
             \<lparr>daemon_pc := Sleeping\<rparr>)
   \<and> queries (snd ((snapshot_target_step demo_snapshot ^^ 5)
        (2, destroy id ((demo_panel [0])\<lparr>m_daemon_running := True, daemon_pc := InQuery\<rparr>))))
       \<le> queries (demo_panel [0]) + 1"
proof -
  let ?p = "(demo_panel [0])\<lparr>m_daemon_running := True, daemon_pc := InQuery\<rparr>"
  have d: "daemon_pc ?p = InQuery" "devices ?p = [0]" "queries ?p = queries (demo_panel [0])"
    by (simp_all add: devices_demo queries_def)
  from destroy_stops_poller [where sd = id and p = ?p and f = demo_snapshot and now = 2] d
  show ?thesis
    by simp
qed


subsection \<open>The constructor\<close>

lemma init_geometry_fields:
  "devices (init_geometry base0 rw devs c) = devs"
  "device_count (init_geometry base0 rw devs c) = length devs"
  "m_compact (init_geometry base0 rw devs c) = c"
  "ttl_entry (init_geometry base0 rw devs c) = None"
  "full_height (init_geometry base0 rw devs c)
     = (if devs = [] then 6 else 4 + 3 * (int (length devs) + 1))"
  "compact_height (init_geometry base0 rw devs c)
     = (if devs = [] then 6 else 4 + 2 * (int (length devs) + 1))"
  "height (base (init_geometry base0 rw devs c))
     = (if devs = [] then 6
        else if c then 4 + 2 * (int (length devs) + 1) else 4 + 3 * (int (length devs) + 1))"
  "x_pos (base (init_geometry base0 rw devs c)) = x_pos base0"
  "y_pos (base (init_geometry base0 rw devs c)) = y_pos base0"
  by (simp_all add: init_geometry_def Let_def width_setter_def)

lemma init_formats_fields:
  "devices (init_formats w p) = devices p"
  "device_count (init_formats w p) = device_count p"
  "m_compact (init_formats w p) = m_compact p"
  "full_height (init_formats w p) = full_height p"
  "compact_height (init_formats w p) = compact_height p"
  "m_snapshots (init_formats w p) = m_snapshots p"
  "driver_version (init_formats w p) = driver_version p"
  "cuda_version (init_formats w p) = cuda_version p"
  "formats_compact (init_formats w p) = formats_compact0"
  by (simp_all add: init_formats_def Let_def)

lemma init_fields:
  "device_count (init base0 rw devs c drv cuda win f t) = length devs"
  "m_compact (init base0 rw devs c drv cuda win f t) = c"
  "full_height (init base0 rw devs c drv cuda win f t)
     = (if devs = [] then 6 else 4 + 3 * (int (length devs) + 1))"
  "compact_height (init base0 rw devs c drv cuda win f t)
     = (if devs = [] then 6 else 4 + 2 * (int (length devs) + 1))"
  "height (base (init base0 rw devs c drv cuda win f t))
     = (if devs = [] then 6
        else if c then 4 + 2 * (int (length devs) + 1) else 4 + 3 * (int (length devs) + 1))"
  "x_pos (base (init base0 rw devs c drv cuda win f t)) = x_pos base0"
  "y_pos (base (init base0 rw devs c drv cuda win f t)) = y_pos base0"
  "m_snapshots (init base0 rw devs c drv cuda win f t) = map derive_snapshot (map (f t) devs)"
  "driver_version (init base0 rw devs c drv cuda win f t) = drv"
  "cuda_version (init base0 rw devs c drv cuda win f t) = cuda"
  "formats_compact (init base0 rw devs c drv cuda win f t) = formats_compact0"
  by (simp_all add: init_def init_formats_fields base_init_formats base_init_snapshots
        init_snapshots_eq init_geometry_fields staged_def)

subsection \<open>\<open>poke\<close> shows a staged list\<close>



















subsection \<open>The lines of the frame\<close>

lemma length_header_lines:
  "length (header_lines w p ca) =
     (if device_count p > 0
      then (if (case ca of None \<Rightarrow> compact p | Some c \<Rightarrow> c) then 5 else 6)
      else 5)"
  by (simp add: header_lines_def Let_def)

lemma set_item_ok:
  "0 \<le> i \<Longrightarrow> nat i < length xs \<Longrightarrow> set_item xs i v = Inr (xs[nat i := v])"
  by (auto simp: set_item_def Let_def)

lemma get_item_ok:
  "0 \<le> i \<Longrightarrow> nat i < length xs \<Longrightarrow> get_item xs i = Inr (xs ! nat i)"
  by (auto simp: get_item_def Let_def)

lemma set_item_last:
  "xs \<noteq> [] \<Longrightarrow> set_item xs (- 1) v = Inr (xs[length xs - 1 := v])"
  by (cases xs) (auto simp: set_item_def Let_def nat_diff_distrib)

lemma get_item_last:
  "xs \<noteq> [] \<Longrightarrow> get_item xs (- 1) = Inr (xs ! (length xs - 1))"
  by (cases xs) (auto simp: get_item_def Let_def)

lemma pop_ok: "xs \<noteq> [] \<Longrightarrow> pop xs = Inr (butlast xs)"
  by (cases xs) simp_all

lemma length_concat_replicate: "length (concat (replicate n xs)) = n * length xs"
  by (induction n) simp_all

lemma widen_frame_length:
  assumes "5 < length frame"
  shows "\<exists>ls. widen_frame p c frame = Inr ls \<and> length ls = length frame"
proof -
  let ?i = "5 - (if c then 1 else 0) :: int"
  have i: "0 \<le> ?i" "nat ?i < length frame"
    using assms by auto
  have ne: "frame[k := v] \<noteq> []" for k v
    using assms by auto
  show ?thesis
    unfolding widen_frame_def Let_def
    by (simp add: get_item_ok [OF i] set_item_ok [OF i] get_item_last [OF ne]
          set_item_last [OF ne])
qed

lemma frame_lines_length:
  assumes "device_count p > 0"
  shows "\<exists>ls. frame_lines w p ca = Inr ls
           \<and> length ls = (if (case ca of None \<Rightarrow> compact p | Some c \<Rightarrow> c)
                           then 5 + 2 * device_count p else 6 + 3 * device_count p)"
proof -
  define c where "c = (case ca of None \<Rightarrow> compact p | Some c \<Rightarrow> c)"
  define body where "body = header_lines w p (Some c) @ concat (replicate (device_count p)
                        (if c then [data_line p, separator_line p]
                         else [data_line p, data_line p, separator_line p]))"
  define f2 where "f2 = butlast body @ [0x2558 # replicate 31 DH @ 0x2567 # replicate 22 DH
                                  @ 0x2567 # replicate 22 DH @ [(0x255B::nat)]]"
  have lb: "length body = (if c then 5 + 2 * device_count p else 6 + 3 * device_count p)"
    using assms by (simp add: body_def length_header_lines length_concat_replicate)
  then have bne: "body \<noteq> []" by (auto split: if_splits)
  have l2: "length f2 = (if c then 5 + 2 * device_count p else 6 + 3 * device_count p)"
    using lb bne by (auto simp: f2_def split: if_splits)
  have fl: "frame_lines w p ca = (if width p \<ge> 100 then widen_frame p c f2 else Inr f2)"
    using assms
    unfolding frame_lines_def Let_def c_def [symmetric] body_def [symmetric]
    by (simp add: pop_ok [OF bne] f2_def [symmetric])
  have "5 < length f2" using l2 assms by (auto split: if_splits)
  from widen_frame_length [OF this, of p c] fl l2 show ?thesis
    by (auto simp: c_def)
qed

lemma frame_lines_no_devices:
  "device_count p = 0 \<Longrightarrow> frame_lines w p ca = Inr (header_lines w p ca)"
  by (cases ca) (simp_all add: frame_lines_def Let_def header_lines_def)

lemma frame_lines_total: "\<exists>ls. frame_lines w p ca = Inr ls"
proof (cases "device_count p > 0")
  case True
  from frame_lines_length [OF this, of w ca] show ?thesis by blast
next
  case False
  then show ?thesis by (simp add: frame_lines_no_devices)
qed

text \<open>
  C4. A panel built for no device has the header with the line \<open>No visible devices found\<close>
  between two rules, and nothing else in its frame; its height, its full height and its
  compact height are all 6, switching the mode leaves the height at 6, and no panel is
  built lower than 6.
\<close>

theorem no_devices_placeholder:
  "header_lines win (init base0 rw [] c drv cuda win f t) ca =
     [0x2552 # replicate 77 DH @ [0x2555],
      BV # lit '' NVIDIA-SMI '' @ ljust 12 drv @ lit '' Driver Version: '' @ ljust 12 drv
        @ lit '' CUDA Version: '' @ ljust 8 cuda @ lit '' '' @ [BV],
      0x255E # replicate 77 DH @ [0x2561],
      BV # lit ''  No visible devices found'' @ replicate 51 32 @ [BV],
      0x2558 # replicate 77 DH @ [0x255B]]
   \<and> frame_lines win (init base0 rw [] c drv cuda win f t) ca
       = Inr (header_lines win (init base0 rw [] c drv cuda win f t) ca)
   \<and> height (base (init base0 rw [] c drv cuda win f t)) = 6
   \<and> full_height (init base0 rw [] c drv cuda win f t) = 6
   \<and> compact_height (init base0 rw [] c drv cuda win f t) = 6
   \<and> height (base (compact_setter v (init base0 rw [] c drv cuda win f t))) = 6
   \<and> 6 \<le> height (base (init base0 rw devs c drv cuda win f t))"
proof -
  let ?p = "init base0 rw [] c drv cuda win f t"
  have n: "device_count ?p = 0" by (simp add: init_fields)
  have h: "height (base ?p) = 6" "full_height ?p = 6" "compact_height ?p = 6"
    by (simp_all add: init_fields)
  have 1: "header_lines win ?p ca =
     [0x2552 # replicate 77 DH @ [0x2555],
      BV # lit '' NVIDIA-SMI '' @ ljust 12 drv @ lit '' Driver Version: '' @ ljust 12 drv
        @ lit '' CUDA Version: '' @ ljust 8 cuda @ lit '' '' @ [BV],
      0x255E # replicate 77 DH @ [0x2561],
      BV # lit ''  No visible devices found'' @ replicate 51 32 @ [BV],
      0x2558 # replicate 77 DH @ [0x255B]]"
    unfolding header_lines_def Let_def by (simp only: n init_fields) simp
  have 2: "height (base (compact_setter v ?p)) = 6"
    using h by (simp add: compact_setter_def Let_def compact_def)
  have 3: "6 \<le> height (base (init base0 rw devs c drv cuda win f t))"
    by (simp add: init_fields)
  from 1 frame_lines_no_devices [OF n] h 2 3 show ?thesis
    by simp
qed

text \<open>
  C8. In every state of a panel that tracks at least one device, \<open>frame_lines(compact)\<close>
  returns, for either value of \<open>compact\<close>, one line less than the height declared for that
  mode, which is \<open>4 + 2 * (n + 1)\<close> when compact and \<open>4 + 3 * (n + 1)\<close> otherwise.
\<close>

theorem frame_fills_height:
  assumes "reachable f p" and "device_count p > 0"
  shows "\<exists>ls. frame_lines w p (Some c) = Inr ls
           \<and> int (length ls) = (if c then compact_height p else full_height p) - 1
           \<and> compact_height p = 4 + 2 * (int (device_count p) + 1)
           \<and> full_height p = 4 + 3 * (int (device_count p) + 1)"
proof -
  from reachable_inv [OF assms(1)] assms(2)
  have h: "compact_height p = 4 + 2 * (int (device_count p) + 1)"
    "full_height p = 4 + 3 * (int (device_count p) + 1)"
    by (auto simp: panel_inv_def)
  from frame_lines_length [OF assms(2), of w "Some c"] obtain ls where
    "frame_lines w p (Some c) = Inr ls"
    "length ls = (if c then 5 + 2 * device_count p else 6 + 3 * device_count p)"
    by auto
  with h show ?thesis by auto
qed

theorem frame_fills_height_witness:
  "reachable demo_snapshot (demo_panel [0]) \<and> device_count (demo_panel [0]) > 0
   \<and> (\<exists>ls. frame_lines False (demo_panel [0]) (Some True) = Inr ls \<and> length ls = 7)
   \<and> compact_height (demo_panel [0]) = 8"
proof -
  have r: "reachable demo_snapshot (demo_panel [0])"
    unfolding demo_panel_def by (rule r_init)
  have n: "device_count (demo_panel [0]) = 1"
    by (simp add: demo_panel_def init_fields)
  then have n0: "device_count (demo_panel [0]) > 0" by simp
  from frame_fills_height [OF r n0, of False True] r n show ?thesis
    by auto
qed

subsection \<open>\<open>draw\<close>\<close>

lemma draw_eq:
  "\<exists>pre. draw w mk env p =
     Inr (ColorReset # pre
            @ [AddStr (y_pos (base p)) (x_pos (base p))
                 (cut_string (clock_text env) 32 (lit ''...'') AlignLeft)]
            @ concat (map (draw_device mk env p) (enumerate_from 0 (snapshots p))), p)
     \<and> (\<forall>env'. draw w mk env' p =
     Inr (ColorReset # pre
            @ [AddStr (y_pos (base p)) (x_pos (base p))
                 (cut_string (clock_text env') 32 (lit ''...'') AlignLeft)]
            @ concat (map (draw_device mk env' p) (enumerate_from 0 (snapshots p))), p))"
proof -
  obtain ls where ls: "frame_lines w p None = Inr ls"
    using frame_lines_total by blast
  show ?thesis
  proof (cases "need_redraw (base p)")
    case True
    then show ?thesis
      by (simp add: draw_def Let_def ls)
  next
    case False
    then show ?thesis
      by (simp add: draw_def Let_def)
  qed
qed

lemma draw_total: "\<exists>out. draw w mk env p = Inr (out, p)"
  using draw_eq [of w mk env p] by blast


lemma in_enumerate_from:
  "k < length xs \<Longrightarrow> (start + int k, xs ! k) \<in> set (enumerate_from start xs)"
  unfolding enumerate_from_def in_set_zip
  by (intro exI [of _ k]) simp

lemma draw_device_split:
  "\<exists>rest. draw_device mk env p (i, d) =
     concat (map (\<lambda>(y, f).
        [AddStr y (x_pos (base p)) (format_row f d),
         ColorAt y (x_pos (base p) + 1) 31 (display_color d)
           (case selected_device env of
              Some sel \<Rightarrow> (if real_device d = sel then Attr (lit ''bold'')
                           else Attr (lit ''dim''))
            | None \<Rightarrow> Attr0),
         ColorAt y (x_pos (base p) + 33) 22 (display_color d)
           (case selected_device env of
              Some sel \<Rightarrow> (if real_device d = sel then Attr (lit ''bold'')
                           else Attr (lit ''dim''))
            | None \<Rightarrow> Attr0),
         ColorAt y (x_pos (base p) + 56) 22 (display_color d)
           (case selected_device env of
              Some sel \<Rightarrow> (if real_device d = sel then Attr (lit ''bold'')
                           else Attr (lit ''dim''))
            | None \<Rightarrow> Attr0)])
       (enumerate_from
          (y_pos (base p) + 4
             + (int (length (if compact p then formats_compact p else formats_full p)) + 1)
               * (i + 1))
          (if compact p then formats_compact p else formats_full p)))
     @ rest"
  unfolding draw_device_def Let_def fst_conv snd_conv
  by (rule exI) (rule refl)


lemma draw_device_rows:
  assumes "j < length (if compact p then formats_compact p else formats_full p)"
  shows "AddStr (y_pos (base p) + 4
                 + (int (length (if compact p then formats_compact p else formats_full p)) + 1)
                   * (i + 1) + int j)
           (x_pos (base p))
           (format_row ((if compact p then formats_compact p else formats_full p) ! j) d)
         \<in> set (draw_device mk env p (i, d))"
proof -
  let ?fs = "if compact p then formats_compact p else formats_full p"
  let ?ys = "y_pos (base p) + 4 + (int (length ?fs) + 1) * (i + 1)"
  from in_enumerate_from [OF assms, of ?ys]
  have m: "(?ys + int j, ?fs ! j) \<in> set (enumerate_from ?ys ?fs)" .
  have g: "AddStr y0 x0 (format_row f0 d) \<in> set (concat (map (\<lambda>(y, f).
             [AddStr y x0 (format_row f d), c1 y, c2 y, c3 y]) xs))"
    if "(y0, f0) \<in> set xs" for y0 f0 x0 c1 c2 c3 and xs :: "(int \<times> fmt) list"
    using that by (induction xs) auto
  let ?rows = "concat (map (\<lambda>(y, f).
        [AddStr y (x_pos (base p)) (format_row f d),
         ColorAt y (x_pos (base p) + 1) 31 (display_color d)
           (case selected_device env of
              Some sel \<Rightarrow> (if real_device d = sel then Attr (lit ''bold'')
                           else Attr (lit ''dim''))
            | None \<Rightarrow> Attr0),
         ColorAt y (x_pos (base p) + 33) 22 (display_color d)
           (case selected_device env of
              Some sel \<Rightarrow> (if real_device d = sel then Attr (lit ''bold'')
                           else Attr (lit ''dim''))
            | None \<Rightarrow> Attr0),
         ColorAt y (x_pos (base p) + 56) 22 (display_color d)
           (case selected_device env of
              Some sel \<Rightarrow> (if real_device d = sel then Attr (lit ''bold'')
                           else Attr (lit ''dim''))
            | None \<Rightarrow> Attr0)])
       (enumerate_from ?ys ?fs))"
  from draw_device_split [of mk env p i d] obtain rest where
    e: "draw_device mk env p (i, d) = ?rows @ rest" ..
  show ?thesis
    unfolding e set_append Un_iff
    by (rule disjI1) (rule g [OF m])
qed

lemma draw_rows:
  assumes k: "k < length (snapshots p)"
    and j: "j < length (if compact p then formats_compact p else formats_full p)"
  shows "AddStr (y_pos (base p) + 4
                    + (int (length (if compact p then formats_compact p else formats_full p)) + 1)
                      * (int k + 1) + int j)
              (x_pos (base p))
              (format_row ((if compact p then formats_compact p else formats_full p) ! j)
                 (snapshots p ! k))
         \<in> set (concat (map (draw_device mk env p) (enumerate_from 0 (snapshots p))))"
proof -
  from in_enumerate_from [OF k, of 0]
  have "(int k, snapshots p ! k) \<in> set (enumerate_from 0 (snapshots p))" by simp
  with draw_device_rows [OF j, of "int k" "snapshots p ! k" mk env] show ?thesis
    unfolding set_concat set_map by blast
qed

text \<open>
  C7. \<open>draw\<close> returns, and leaves the panel exactly as it found it. The row that it writes
  for a snapshot and a format is the format filled with the fields as the snapshot stores
  them; and in every state of the panel the snapshots that it shows are a list derived by
  \<open>take_snapshots\<close>.
\<close>

theorem draw_leaves_panel:
  "\<exists>out. draw w mk env p = Inr (out, p)
     \<and> (\<forall>k < length (snapshots p).
          \<forall>j < length (if compact p then formats_compact p else formats_full p).
            AddStr (y_pos (base p) + 4
                    + (int (length (if compact p then formats_compact p else formats_full p)) + 1)
                      * (int k + 1) + int j)
              (x_pos (base p))
              (format_row ((if compact p then formats_compact p else formats_full p) ! j)
                 (snapshots p ! k))
            \<in> set out)
     \<and> (\<forall>f. reachable f p \<longrightarrow> (\<exists>t. snapshots p = staged f t p))"
proof -
  from draw_eq [of w mk env p] obtain pre where
    d: "draw w mk env p =
     Inr (ColorReset # pre
            @ [AddStr (y_pos (base p)) (x_pos (base p))
                 (cut_string (clock_text env) 32 (lit ''...'') AlignLeft)]
            @ concat (map (draw_device mk env p) (enumerate_from 0 (snapshots p))), p)"
    by blast
  let ?out = "ColorReset # pre
            @ [AddStr (y_pos (base p)) (x_pos (base p))
                 (cut_string (clock_text env) 32 (lit ''...'') AlignLeft)]
            @ concat (map (draw_device mk env p) (enumerate_from 0 (snapshots p)))"
  have "\<forall>k < length (snapshots p).
          \<forall>j < length (if compact p then formats_compact p else formats_full p).
            AddStr (y_pos (base p) + 4
                    + (int (length (if compact p then formats_compact p else formats_full p)) + 1)
                      * (int k + 1) + int j)
              (x_pos (base p))
              (format_row ((if compact p then formats_compact p else formats_full p) ! j)
                 (snapshots p ! k))
            \<in> set ?out"
    using draw_rows [of _ p _ mk env]
    by (simp only: set_append set_simps Un_iff insert_iff) blast
  moreover have "\<exists>t. snapshots p = staged f t p" if "reachable f p" for f
    using reachable_inv [OF that] by (simp add: panel_inv_def snapshots_def)
  ultimately show ?thesis
    using d by blast
qed

theorem draw_leaves_panel_witness:
  "\<exists>out. draw False demo_make_bar
            \<lparr>clock_text = lit ''Wed Nov 04 07:24:00 2026'', selected_device = None\<rparr>
            (compact_setter True (demo_panel [0]))
          = Inr (out, compact_setter True (demo_panel [0]))
        \<and> AddStr 6 0 (format_row (formats_compact0 ! 0) (derive_snapshot (demo_snapshot 0 0)))
            \<in> set out"
proof -
  let ?p = "compact_setter True (demo_panel [0])"
  have f: "compact ?p" "formats_compact ?p = formats_compact0"
    "snapshots ?p = [derive_snapshot (demo_snapshot 0 0)]"
    "x_pos (base ?p) = 0" "y_pos (base ?p) = 0"
    by (simp_all add: compact_setter_def Let_def compact_def snapshots_def demo_panel_def
          init_fields demo_base_def)
  have l: "length formats_compact0 = 1"
    by (simp add: formats_compact0_def)
  from draw_leaves_panel [of False demo_make_bar
      "\<lparr>clock_text = lit ''Wed Nov 04 07:24:00 2026'', selected_device = None\<rparr>" ?p]
  have "\<exists>out. draw False demo_make_bar
            \<lparr>clock_text = lit ''Wed Nov 04 07:24:00 2026'', selected_device = None\<rparr> ?p
          = Inr (out, ?p)
        \<and> AddStr 6 0 (format_row (formats_compact0 ! 0) (derive_snapshot (demo_snapshot 0 0)))
            \<in> set out
        \<and> (\<forall>f. reachable f ?p \<longrightarrow> (\<exists>t. snapshots ?p = staged f t ?p))"
    by (simp add: f l)
  then show ?thesis
    by blast
qed

lemma draw_device_clock:
  "draw_device mk \<lparr>clock_text = c1, selected_device = s\<rparr> p e
     = draw_device mk \<lparr>clock_text = c2, selected_device = s\<rparr> p e"
  by (simp add: draw_device_def)

text \<open>
  C2, as amended. Two successive calls of \<open>draw\<close> with nothing in between, at the same
  text of the clock and with the same selected device, write the same to the surface. And
  whatever the text of the clock, with the same selected device \<open>draw\<close> writes the same
  calls before and after the one string at the origin of the panel that carries the clock:
  between two draws only that string can differ.
\<close>

theorem draw_twice:
  "(\<exists>out p'. draw w mk env p = Inr (out, p') \<and> draw w mk env p' = Inr (out, p'))
   \<and> (\<exists>pre rows. \<forall>c.
         draw w mk \<lparr>clock_text = c, selected_device = s\<rparr> p
           = Inr (ColorReset # pre
                    @ [AddStr (y_pos (base p)) (x_pos (base p))
                         (cut_string c 32 (lit ''...'') AlignLeft)]
                    @ rows, p))"
proof
  show "\<exists>out p'. draw w mk env p = Inr (out, p') \<and> draw w mk env p' = Inr (out, p')"
    using draw_total [of w mk env p] by blast
next
  let ?rows = "\<lambda>c. concat (map (draw_device mk \<lparr>clock_text = c, selected_device = s\<rparr> p)
                              (enumerate_from 0 (snapshots p)))"
  from draw_eq [of w mk "\<lparr>clock_text = [], selected_device = s\<rparr>" p] obtain pre where
    d: "\<And>env'. draw w mk env' p =
     Inr (ColorReset # pre
            @ [AddStr (y_pos (base p)) (x_pos (base p))
                 (cut_string (clock_text env') 32 (lit ''...'') AlignLeft)]
            @ concat (map (draw_device mk env' p) (enumerate_from 0 (snapshots p))), p)"
    by blast
  have r: "?rows c = ?rows []" for c
    using draw_device_clock [of mk c s p _ "[]"] by (simp cong: map_cong)
  have "draw w mk \<lparr>clock_text = c, selected_device = s\<rparr> p
           = Inr (ColorReset # pre
                    @ [AddStr (y_pos (base p)) (x_pos (base p))
                         (cut_string c 32 (lit ''...'') AlignLeft)]
                    @ ?rows [], p)" for c
    using d [of "\<lparr>clock_text = c, selected_device = s\<rparr>"] r [of c] by simp
  then show "\<exists>pre rows. \<forall>c.
         draw w mk \<lparr>clock_text = c, selected_device = s\<rparr> p
           = Inr (ColorReset # pre
                    @ [AddStr (y_pos (base p)) (x_pos (base p))
                         (cut_string c 32 (lit ''...'') AlignLeft)]
                    @ rows, p)"
    by blast
qed

text \<open>
  The claim as it stands fails: \<open>draw\<close> writes the time of the clock, so two successive
  calls a second apart write different output.
\<close>

lemma draw_clock:
  assumes "cut_string c1 32 (lit ''...'') AlignLeft \<noteq> cut_string c2 32 (lit ''...'') AlignLeft"
  shows "\<exists>out1 out2.
           draw w mk \<lparr>clock_text = c1, selected_device = s\<rparr> p = Inr (out1, p)
           \<and> draw w mk \<lparr>clock_text = c2, selected_device = s\<rparr> p = Inr (out2, p)
           \<and> out1 \<noteq> out2"
proof -
  let ?e1 = "\<lparr>clock_text = c1, selected_device = s\<rparr>"
  let ?e2 = "\<lparr>clock_text = c2, selected_device = s\<rparr>"
  let ?rows = "concat (map (draw_device mk ?e1 p) (enumerate_from 0 (snapshots p)))"
  from draw_eq [of w mk ?e1 p] obtain pre where
    d: "\<And>env'. draw w mk env' p =
     Inr (ColorReset # pre
            @ [AddStr (y_pos (base p)) (x_pos (base p))
                 (cut_string (clock_text env') 32 (lit ''...'') AlignLeft)]
            @ concat (map (draw_device mk env' p) (enumerate_from 0 (snapshots p))), p)"
    by blast
  have r: "concat (map (draw_device mk ?e2 p) (enumerate_from 0 (snapshots p))) = ?rows"
    using draw_device_clock [of mk c2 s p _ c1] by (simp cong: map_cong)
  have "draw w mk ?e1 p = Inr (ColorReset # pre
            @ [AddStr (y_pos (base p)) (x_pos (base p)) (cut_string c1 32 (lit ''...'') AlignLeft)]
            @ ?rows, p)"
    using d [of ?e1] by simp
  moreover have "draw w mk ?e2 p = Inr (ColorReset # pre
            @ [AddStr (y_pos (base p)) (x_pos (base p)) (cut_string c2 32 (lit ''...'') AlignLeft)]
            @ ?rows, p)"
    using d [of ?e2] r by simp
  moreover have "ColorReset # pre
            @ [AddStr (y_pos (base p)) (x_pos (base p)) (cut_string c1 32 (lit ''...'') AlignLeft)]
            @ ?rows \<noteq> ColorReset # pre
            @ [AddStr (y_pos (base p)) (x_pos (base p)) (cut_string c2 32 (lit ''...'') AlignLeft)]
            @ ?rows"
    using assms by simp
  ultimately show ?thesis by blast
qed

theorem draw_twice_counterexample:
  "\<exists>out1 out2.
     draw False demo_make_bar
       \<lparr>clock_text = lit ''Wed Nov 04 07:24:00 2026'', selected_device = None\<rparr>
       (demo_panel [0]) = Inr (out1, demo_panel [0])
     \<and> draw False demo_make_bar
         \<lparr>clock_text = lit ''Wed Nov 04 07:24:01 2026'', selected_device = None\<rparr>
         (demo_panel [0]) = Inr (out2, demo_panel [0])
     \<and> out1 \<noteq> out2"
  by (rule draw_clock) (simp add: cut_string_def lit_def)



subsection \<open>An error of the provider at startup\<close>

lemma main_error:
  assumes "device_count_result env = Inl err"
  shows "main colored env a =
     ((if force_color a then [SetColor] else [])
      @ (case err of
           NVMLError_LibraryNotFound e \<Rightarrow> []
         | NVMLError e \<Rightarrow>
             [Stderr (colored (lit ''NVML ERROR:'') (Some (lit ''red'')) [lit ''bold'']
                      @ lit '' '' @ e)]),
      Inr 1)"
  using assms by (cases err) (simp_all add: main_def Let_def split: prod.splits)

text \<open>
  C5, as amended. When counting the devices raises an error of the provider, \<open>main\<close>
  returns the exit status 1 without building a dashboard. For an error other than
  ``library not found'' it prints exactly one line to the error stream, \<open>NVML ERROR:\<close>
  followed by the text of the error; for ``library not found'' \<open>main\<close> itself prints
  nothing. The messages collected before are not printed in either case.
\<close>

theorem provider_error_aborts:
  assumes "device_count_result env = Inl err"
  shows "snd (main colored env a) = Inr 1
         \<and> filter is_top_new (fst (main colored env a)) = []
         \<and> filter is_stderr (fst (main colored env a))
             = (case err of
                  NVMLError_LibraryNotFound e \<Rightarrow> []
                | NVMLError e \<Rightarrow>
                    [Stderr (colored (lit ''NVML ERROR:'') (Some (lit ''red'')) [lit ''bold'']
                             @ lit '' '' @ e)])"
  unfolding main_error [OF assms] by (cases err) simp_all

theorem provider_error_aborts_witness:
  "device_count_result (demo_env (Inl (NVMLError (lit ''Driver Not Loaded''))))
     = Inl (NVMLError (lit ''Driver Not Loaded''))
   \<and> snd (main demo_colored (demo_env (Inl (NVMLError (lit ''Driver Not Loaded'')))) demo_args) = Inr 1
   \<and> filter is_top_new
        (fst (main demo_colored (demo_env (Inl (NVMLError (lit ''Driver Not Loaded'')))) demo_args)) = []
   \<and> filter is_stderr
        (fst (main demo_colored (demo_env (Inl (NVMLError (lit ''Driver Not Loaded'')))) demo_args))
       = [Stderr (lit ''NVML ERROR: Driver Not Loaded'')]"
proof -
  have e: "device_count_result (demo_env (Inl (NVMLError (lit ''Driver Not Loaded''))))
     = Inl (NVMLError (lit ''Driver Not Loaded''))"
    by (simp add: demo_env_def)
  from provider_error_aborts [OF e, of demo_colored demo_args] e show ?thesis
    by (simp add: demo_colored_def lit_def)
qed

text \<open>
  The claim as it stands fails: when the library of the provider is not found, \<open>main\<close>
  returns 1 and prints no line.
\<close>

theorem provider_error_aborts_counterexample:
  "device_count_result (demo_env (Inl (NVMLError_LibraryNotFound (lit ''NVML Shared Library Not Found''))))
     = Inl (NVMLError_LibraryNotFound (lit ''NVML Shared Library Not Found''))
   \<and> main demo_colored (demo_env (Inl (NVMLError_LibraryNotFound (lit ''NVML Shared Library Not Found'')))) demo_args
       = ([], Inr 1)"
  by (simp add: main_error [of _ "NVMLError_LibraryNotFound (lit ''NVML Shared Library Not Found'')"]
        demo_env_def demo_args_def)


end
